theory Spec2Isabelle
  imports Main "HOL-Library.Word"
begin

unbundle bit_operations_syntax

chapter \<open>The GT.M POSIX extension\<close>

text \<open>
  A shallow embedding of the extension: the M routines of \<^verbatim>\<open>posix.m\<close> that compute
  (the file mode helper and the file-type predicates) and the C call-out library
  \<^verbatim>\<open>posix.c\<close> (the marshalling of every exposed operation, the string copies, the
  decoding of option names and the table of open directory handles), followed by the
  properties proved of them.
\<close>

section \<open>The M routines of \<^verbatim>\<open>posix.m\<close>: file mode helper and file-type predicates\<close>

text \<open>
  M values are strings; a number is the string of its canonical decimal form. The model keeps
  strings as \<^typ>\<open>string\<close> and the non-negative integers the routines compute with as
  \<^typ>\<open>nat\<close> (M arithmetic is exact on the few digits these routines see). Parameters
  passed by reference (\<^verbatim>\<open>.mode\<close>) are modelled by value: the routines below only
  read them or overwrite their own copy before returning.

  \<^item> \<open>m_extract s i\<close> is \<^verbatim>\<open>$e(s,i)\<close>: the \<open>i\<close>-th character (from 1), or the
    empty string out of range.
  \<^item> \<open>m_set_extract pad s k v\<close> is \<^verbatim>\<open>s $e(s,k)=v\<close> (and \<^verbatim>\<open>$ze\<close> on bytes): a
    target shorter than \<open>k - 1\<close> is padded, with blanks, before \<open>v\<close> is stored.
  \<^item> \<open>m_num s\<close> is the numeric interpretation of a string: its leading decimal digits (a string
    that starts with no digit counts 0). It is applied to results of \<^verbatim>\<open>$e\<close> only.
  \<^item> \<open>m_str n\<close> is the string of the number \<open>n\<close>.
  \<^item> \<open>canonic lit\<close> is how M reads an integer literal of the program text: leading zeros
    are dropped, so the literal \<^verbatim>\<open>0100000\<close> is the number (and string) \<^verbatim>\<open>100000\<close>.
\<close>

type_synonym byte = "8 word"

definition m_extract :: "'a list \<Rightarrow> nat \<Rightarrow> 'a list" where
  "m_extract s i = (if 1 \<le> i \<and> i \<le> length s then [s ! (i - 1)] else [])"

definition m_set_extract :: "'a \<Rightarrow> 'a list \<Rightarrow> nat \<Rightarrow> 'a list \<Rightarrow> 'a list" where
  "m_set_extract pad s k v =
     (if k = 0 then s
      else take (k - 1) (s @ replicate (k - 1 - length s) pad) @ v @ drop k s)"

definition is_digit :: "char \<Rightarrow> bool" where
  "is_digit c = (48 \<le> (of_char c :: nat) \<and> (of_char c :: nat) \<le> 57)"

definition m_num :: "string \<Rightarrow> nat" where
  "m_num s = foldl (\<lambda>a c. 10 * a + (of_char c - 48)) 0 (takeWhile is_digit s)"

fun m_str :: "nat \<Rightarrow> string" where
  "m_str n = (if n < 10 then [char_of (48 + n)] else m_str (n div 10) @ [char_of (48 + n mod 10)])"

declare m_str.simps [simp del]

definition canonic :: "string \<Rightarrow> string" where
  "canonic lit = (case dropWhile (\<lambda>c. c = CHR ''0'') lit of [] \<Rightarrow> ''0'' | r \<Rightarrow> r)"

text \<open>
  \<^verbatim>\<open>mode(octal)\<close>: \<^verbatim>\<open>s n=0,l=$l(octal) f i=l:-1:1 s n=n+($e(octal,i)*(8**(l-i)))\<close>.
  The loop counter runs from \<open>l\<close> down to 1, which is the recursion of \<open>mode_loop\<close>.
\<close>

primrec mode_loop :: "string \<Rightarrow> nat \<Rightarrow> nat \<Rightarrow> nat \<Rightarrow> nat" where
  "mode_loop octal l 0 n = n"
| "mode_loop octal l (Suc j) n =
     mode_loop octal l j (n + m_num (m_extract octal (Suc j)) * 8 ^ (l - Suc j))"

definition mode :: "string \<Rightarrow> nat" where
  "mode octal = mode_loop octal (length octal) (length octal) 0"

text \<open>
  \<^verbatim>\<open>octal(mode)\<close>: four times (\<^verbatim>\<open>f i=1:1:4\<close>) the routine stores
  \<^verbatim>\<open>mode#8\<close> at position \<open>5 - i\<close> of a fresh (empty) \<^verbatim>\<open>s\<close> and divides
  \<^verbatim>\<open>mode\<close> by 8 (integer division).
\<close>

function octal_loop :: "nat \<Rightarrow> string \<Rightarrow> nat \<Rightarrow> string" where
  "octal_loop i s m =
     (if i \<le> 4 then octal_loop (i + 1) (m_set_extract CHR '' '' s (5 - i) (m_str (m mod 8))) (m div 8)
      else s)"
  by pat_completeness auto
termination
  by (relation "measure (\<lambda>(i, s, m). 5 - i)") auto

declare octal_loop.simps [simp del]

definition octal :: "nat \<Rightarrow> string" where
  "octal m = octal_loop 1 [] m"

text \<open>
  \<^verbatim>\<open>zbit(n,l)\<close>: for \<open>i\<close> from \<open>l\<close> down to 1 it stores \<^verbatim>\<open>$zch(n#256)\<close> at
  position \<open>i\<close> of \<^verbatim>\<open>b\<close> and divides \<open>n\<close> by 256, then returns
  \<^verbatim>\<open>$zch(0)_b\<close>: the \<open>l\<close> low bytes of \<open>n\<close>, most significant first, behind the
  header byte of a GT.M bit string (the count of unused bits, 0). \<^verbatim>\<open>$zbitand\<close> keeps the
  header and combines the data bytes with bitwise and.
\<close>

primrec zbit_loop :: "nat \<Rightarrow> byte list \<Rightarrow> nat \<Rightarrow> byte list" where
  "zbit_loop 0 b n = b"
| "zbit_loop (Suc j) b n = zbit_loop j (m_set_extract 32 b (Suc j) [of_nat (n mod 256)]) (n div 256)"

definition zbit :: "nat \<Rightarrow> nat \<Rightarrow> byte list" where
  "zbit n l = 0 # zbit_loop l [] n"

definition zbitand :: "byte list \<Rightarrow> byte list \<Rightarrow> byte list" where
  "zbitand a b =
     (case (a, b) of
        (pa # da, pb # db) \<Rightarrow> pa # map (\<lambda>(x, y). x AND y) (zip da db)
      | _ \<Rightarrow> [])"

text \<open>
  \<^verbatim>\<open>isflag(mode,flag)\<close>: \<^verbatim>\<open>s s=$$zbit($$mode(.flag),4)\<close>,
  \<^verbatim>\<open>q $zbitand($$zbit(.mode,4),s)=s\<close>; the seven predicates pass the literals
  \<^verbatim>\<open>0100000\<close>, \<^verbatim>\<open>0040000\<close>, ... as \<^verbatim>\<open>flag\<close>.
\<close>

definition isflag :: "nat \<Rightarrow> string \<Rightarrow> bool" where
  "isflag m flag = (let s = zbit (mode flag) 4 in zbitand (zbit m 4) s = s)"

definition isreg :: "nat \<Rightarrow> bool" where "isreg m = isflag m (canonic ''0100000'')"
definition isdir :: "nat \<Rightarrow> bool" where "isdir m = isflag m (canonic ''0040000'')"
definition ischr :: "nat \<Rightarrow> bool" where "ischr m = isflag m (canonic ''0020000'')"
definition isblk :: "nat \<Rightarrow> bool" where "isblk m = isflag m (canonic ''0060000'')"
definition isfifo :: "nat \<Rightarrow> bool" where "isfifo m = isflag m (canonic ''0010000'')"
definition islnk :: "nat \<Rightarrow> bool" where "islnk m = isflag m (canonic ''0120000'')"
definition issock :: "nat \<Rightarrow> bool" where "issock m = isflag m (canonic ''0140000'')"

section \<open>The C extension \<^verbatim>\<open>posix.c\<close>\<close>

text \<open>
  Names follow the source; a leading underscore, which a constant of this theory cannot carry, is
  written \<open>u_\<close> (\<^verbatim>\<open>_posix_stat\<close> is \<open>u_posix_stat\<close>). Numbers are unbounded
  integers, with one exception: the numeric id of a user or group lookup is a 64-bit word,
  which the call of the native lookup narrows to 32 bits. No other property below depends on
  the width of \<^verbatim>\<open>gtm_long_t\<close> and its relatives. A directory handle
  (\<^verbatim>\<open>DIR *\<close> cast to \<^verbatim>\<open>gtm_ulong_t\<close>) is a natural number, 0 for
  \<^verbatim>\<open>NULL\<close>.
\<close>

subsection \<open>Error numbers\<close>

text \<open>
  The values of \<^verbatim>\<open><errno.h>\<close> on Linux, the platform of the Makefile; the header comment of
  \<^verbatim>\<open>posix.c\<close> itself names 61 for \<^verbatim>\<open>ENODATA\<close>.
\<close>

type_synonym status = int

definition ENOENT :: int where "ENOENT = 2"
definition EINVAL :: int where "EINVAL = 22"
definition EMFILE :: int where "EMFILE = 24"
definition ERANGE :: int where "ERANGE = 34"
definition ENODATA :: int where "ENODATA = 61"

subsection \<open>Caller buffers and the string copies\<close>

text \<open>
  A caller-provided buffer is the list of its bytes, its capacity being the length of the list.
  A store through a pointer is \<open>poke\<close>: outside the buffer it is a \<open>fault\<close> (undefined
  behaviour in C), and every function that stores into a buffer returns \<open>fault + result\<close>.
  A pointer into a buffer is the buffer and an offset. A source string is the list of its
  characters before the terminating \<^verbatim>\<open>NUL\<close>, so \<open>deref s\<close> (\<^verbatim>\<open>*s\<close>) is \<open>NUL\<close>
  at the end of the list.

  \<^verbatim>\<open>strncopy (p, s, n)\<close> and \<^verbatim>\<open>strpncopy (p, s, &n)\<close> are the two loops of the source;
  \<open>strpncopy\<close> returns the pointer it stopped at (\<open>None\<close> for \<^verbatim>\<open>NULL\<close>) and the updated
  \<^verbatim>\<open>*n\<close>.
\<close>

datatype fault = OutOfBounds int

definition NUL :: char where
  "NUL = CHR 0x00"

definition poke :: "string \<Rightarrow> int \<Rightarrow> char \<Rightarrow> fault + string" where
  "poke buf i c =
     (if 0 \<le> i \<and> i < int (length buf) then Inr (buf[nat i := c]) else Inl (OutOfBounds i))"

fun pokes :: "string \<Rightarrow> int \<Rightarrow> string \<Rightarrow> fault + string" where
  "pokes buf i [] = Inr buf"
| "pokes buf i (c # cs) =
     (case poke buf i c of Inl f \<Rightarrow> Inl f | Inr buf' \<Rightarrow> pokes buf' (i + 1) cs)"

definition deref :: "string \<Rightarrow> char" where
  "deref s = (case s of [] \<Rightarrow> NUL | c # _ \<Rightarrow> c)"

definition cstring :: "string \<Rightarrow> string" where
  "cstring buf = takeWhile (\<lambda>c. c \<noteq> NUL) buf"

function strncopy :: "string \<Rightarrow> int \<Rightarrow> string \<Rightarrow> int \<Rightarrow> fault + (int \<times> string)" where
  "strncopy buf p s n =
     (if n > 1 then
        (case poke buf p (deref s) of
           Inl f \<Rightarrow> Inl f
         | Inr buf' \<Rightarrow>
             if deref s = NUL then Inr (0, buf')
             else strncopy buf' (p + 1) (tl s) (n - 1))
      else
        (case poke buf p NUL of
           Inl f \<Rightarrow> Inl f
         | Inr buf' \<Rightarrow> Inr (ERANGE, buf')))"
  by pat_completeness auto
termination
  by (relation "measure (\<lambda>(buf, p, s, n). nat n)") auto

declare strncopy.simps [simp del]

function strpncopy :: "string \<Rightarrow> int \<Rightarrow> string \<Rightarrow> int \<Rightarrow> fault + (int option \<times> int \<times> string)" where
  "strpncopy buf p s n =
     (if n > 1 then
        (case poke buf p (deref s) of
           Inl f \<Rightarrow> Inl f
         | Inr buf' \<Rightarrow>
             if deref s = NUL then Inr (Some p, n, buf')
             else strpncopy buf' (p + 1) (tl s) (n - 1))
      else
        (case poke buf p NUL of
           Inl f \<Rightarrow> Inl f
         | Inr buf' \<Rightarrow> Inr (None, n, buf')))"
  by pat_completeness auto
termination
  by (relation "measure (\<lambda>(buf, p, s, n). nat n)") auto

declare strpncopy.simps [simp del]

subsection \<open>Option names: \<^verbatim>\<open>_get_param\<close> and \<^verbatim>\<open>_get_flags\<close>\<close>

text \<open>
  \<^verbatim>\<open>_get_param\<close> scans the table from its first record and compares with
  \<^verbatim>\<open>strcasecmp\<close>. Its result is \<open>Some v\<close> when the C function returns 0 after storing
  \<open>v\<close> through \<^verbatim>\<open>value\<close>, and \<open>None\<close> when it returns -1 and stores nothing.
  \<^verbatim>\<open>_get_flags\<close> likewise: \<open>None\<close> is the return of \<^verbatim>\<open>EINVAL\<close> by the
  \<^verbatim>\<open>check\<close> macro, with nothing stored through \<^verbatim>\<open>value\<close>.

  \<open>strtok s delim\<close> is one call of the C library's \<^verbatim>\<open>strtok\<close> on the unread rest
  \<open>s\<close> of the string: it skips leading delimiters, and returns the token up to the next
  delimiter together with the rest behind that delimiter, or \<open>None\<close> (\<^verbatim>\<open>NULL\<close>) when
  nothing but delimiters is left. \<open>tokens\<close> is the sequence of tokens the loop of
  \<^verbatim>\<open>_get_flags\<close> sees.
\<close>

definition list_delimiter :: char where
  "list_delimiter = CHR ''|''"

record param =
  p_name :: string
  p_value :: int

definition tolower :: "char \<Rightarrow> char" where
  "tolower c =
     (if 65 \<le> (of_char c :: nat) \<and> (of_char c :: nat) \<le> 90 then char_of ((of_char c :: nat) + 32) else c)"

fun strcasecmp :: "string \<Rightarrow> string \<Rightarrow> int" where
  "strcasecmp [] [] = 0"
| "strcasecmp [] (b # bs) = - int (of_char (tolower b))"
| "strcasecmp (a # as) [] = int (of_char (tolower a))"
| "strcasecmp (a # as) (b # bs) =
     (if tolower a = tolower b then strcasecmp as bs
      else int (of_char (tolower a)) - int (of_char (tolower b)))"

fun u_get_param :: "param list \<Rightarrow> string \<Rightarrow> int option" where
  "u_get_param [] name = None"
| "u_get_param (e # p) name =
     (if strcasecmp (p_name e) name = 0 then Some (p_value e) else u_get_param p name)"

definition strtok :: "string \<Rightarrow> char \<Rightarrow> (string \<times> string) option" where
  "strtok s delim =
     (let s1 = dropWhile (\<lambda>c. c = delim) s
      in if s1 = [] then None
         else Some (takeWhile (\<lambda>c. c \<noteq> delim) s1, drop 1 (dropWhile (\<lambda>c. c \<noteq> delim) s1)))"

lemma strtok_shorter: "strtok s delim = Some (tok, rest) \<Longrightarrow> length rest < length s"
proof -
  assume a: "strtok s delim = Some (tok, rest)"
  define s1 where "s1 = dropWhile (\<lambda>c. c = delim) s"
  define d where "d = dropWhile (\<lambda>c. c \<noteq> delim) s1"
  from a have ne: "s1 \<noteq> []" and r: "rest = drop 1 d"
    by (auto simp: strtok_def s1_def d_def Let_def split: if_splits)
  have "length rest = length d - 1"
    by (simp add: r)
  moreover have "length d \<le> length s1"
    unfolding d_def by (rule length_dropWhile_le)
  moreover have "0 < length s1"
    using ne by simp
  moreover have "length s1 \<le> length s"
    unfolding s1_def by (rule length_dropWhile_le)
  ultimately show ?thesis by linarith
qed

function get_flags_loop :: "param list \<Rightarrow> string \<Rightarrow> int \<Rightarrow> int option" where
  "get_flags_loop param rest flags =
     (case strtok rest list_delimiter of
        None \<Rightarrow> Some flags
      | Some (p, rest') \<Rightarrow>
          (case u_get_param param p of
             None \<Rightarrow> None
           | Some f \<Rightarrow> get_flags_loop param rest' (flags OR f)))"
  by pat_completeness auto
termination
  by (relation "measure (\<lambda>(param, rest, flags). length rest)") (auto dest: strtok_shorter)

declare get_flags_loop.simps [simp del]

definition u_get_flags :: "param list \<Rightarrow> string \<Rightarrow> int option" where
  "u_get_flags param name = get_flags_loop param name 0"

function tokens :: "string \<Rightarrow> string list" where
  "tokens s = (case strtok s list_delimiter of None \<Rightarrow> [] | Some (p, rest) \<Rightarrow> p # tokens rest)"
  by pat_completeness auto
termination
  by (relation "measure length") (auto dest: strtok_shorter)

declare tokens.simps [simp del]

text \<open>
  For comparison with \<open>tokens\<close>: the entries of an option string as the specification
  words them, ``a single string with entries joined by a single-character delimiter''.
  \<open>spec_entries\<close> cuts the string at every delimiter, so that a delimiter at either end of
  the string, or two delimiters in a row, bound an empty entry.
\<close>

fun spec_entries :: "string \<Rightarrow> string list" where
  "spec_entries [] = [[]]"
| "spec_entries (c # s) =
     (if c = list_delimiter then [] # spec_entries s
      else (case spec_entries s of [] \<Rightarrow> [[c]] | e # es \<Rightarrow> (c # e) # es))"

subsection \<open>Native structures, the trace of native calls and the process state\<close>

text \<open>
  One record per C structure the operations copy from (\<^verbatim>\<open>struct tm\<close>, \<^verbatim>\<open>struct stat\<close>,
  ...). The output parameters of an operation, one pointer per field in C, are modelled as one
  record of the same type holding the current contents of the caller's slots; an operation
  returns the record as it leaves the slots. For \<open>utsname\<close>, \<open>passwd\<close> and \<open>grp\<close> the string
  fields of the slot record are the caller's buffers. \<open>load1\<close>, \<open>load5\<close> and \<open>load15\<close> are
  \<^verbatim>\<open>loads[0]\<close>, \<^verbatim>\<open>loads[1]\<close> and \<^verbatim>\<open>loads[2]\<close>.

  \<open>ncall\<close> lists the native calls with their arguments. The process state \<open>world\<close> holds
  \<^verbatim>\<open>errno\<close>, the native calls made so far (oldest first) and the two static variables
  of the source, \<^verbatim>\<open>dir_list\<close> (an array of \<^verbatim>\<open>dir_limit\<close> handles) and
  \<^verbatim>\<open>dir_count\<close>.

  What a native call answers is a parameter of the operation that makes it, of type
  \<open>'a native\<close>: the returned value, and the number the call stores into
  \<^verbatim>\<open>errno\<close> if it stores one. A call that fills a structure answers \<open>Some\<close> of the
  structure (returning 0 in C) or \<open>None\<close> (returning -1, or \<^verbatim>\<open>NULL\<close>, and leaving the
  structure alone).

  The numeric id of a lookup arrives as a \<^verbatim>\<open>gtm_ulong_t\<close>, the \<^verbatim>\<open>unsigned long\<close>
  of the call interface (64 bits on the LP64 platforms), and is handed to a native lookup
  whose parameter is a \<^verbatim>\<open>uid_t\<close> or \<^verbatim>\<open>gid_t\<close> (unsigned, 32 bits): the call
  converts it, keeping its low 32 bits.
\<close>

record timespec =
  tv_sec :: int
  tv_nsec :: int

record tm =
  tm_sec :: int
  tm_min :: int
  tm_hour :: int
  tm_mday :: int
  tm_mon :: int
  tm_year :: int
  tm_wday :: int
  tm_yday :: int
  tm_isdst :: int

record tms =
  tms_utime :: int
  tms_stime :: int
  tms_cutime :: int
  tms_cstime :: int

record sysinfo_buf =
  uptime :: int
  load1 :: int
  load5 :: int
  load15 :: int
  totalram :: int
  freeram :: int
  sharedram :: int
  bufferram :: int
  totalswap :: int
  freeswap :: int
  procs :: int
  totalhigh :: int
  freehigh :: int
  mem_unit :: int

record utsname =
  sysname :: string
  nodename :: string
  release :: string
  version :: string
  machine :: string

record stat_buf =
  st_dev :: int
  st_ino :: int
  st_mode :: int
  st_nlink :: int
  st_uid :: int
  st_gid :: int
  st_rdev :: int
  st_size :: int
  st_blksize :: int
  st_blocks :: int
  st_atime :: int
  st_mtime :: int
  st_ctime :: int

record passwd =
  pw_name :: string
  pw_passwd :: string
  pw_uid :: int
  pw_gid :: int
  pw_gecos :: string
  pw_dir :: string
  pw_shell :: string

record 'm grp =
  gr_name :: string
  gr_passwd :: string
  gr_gid :: int
  gr_mem :: 'm

type_synonym gtm_ulong_t = "64 word"
type_synonym uid_t = "32 word"
type_synonym gid_t = "32 word"

datatype ncall =
    N_time
  | N_clock_gettime int
  | N_clock_getres int
  | N_localtime int
  | N_gmtime int
  | N_mktime tm
  | N_strftime string tm
  | N_times
  | N_sysinfo
  | N_uname
  | N_setenv string string int
  | N_unsetenv string
  | N_malloc nat
  | N_openlog string int int
  | N_syslog int string
  | N_umask int
  | N_stat string
  | N_lstat string
  | N_readlink string
  | N_link string string
  | N_symlink string string
  | N_unlink string
  | N_mkdir string int
  | N_rmdir string
  | N_chmod string int
  | N_chown string int int
  | N_lchown string int int
  | N_getpwuid uid_t
  | N_getpwnam string
  | N_getgrgid gid_t
  | N_getgrnam string
  | N_getgrent
  | N_endgrent
  | N_opendir string
  | N_readdir nat
  | N_closedir nat

definition dir_limit :: nat where
  "dir_limit = 256"

record world =
  errno :: int
  calls :: "ncall list"
  dir_list :: "nat list"
  dir_count :: nat

definition init_world :: world where
  "init_world = \<lparr>errno = 0, calls = [], dir_list = replicate dir_limit 0, dir_count = 0\<rparr>"

type_synonym 'a native = "'a \<times> int option"

definition clear_errno :: "world \<Rightarrow> world" where
  "clear_errno w = w\<lparr>errno := 0\<rparr>"

definition native :: "ncall \<Rightarrow> int option \<Rightarrow> world \<Rightarrow> world" where
  "native c e w =
     w\<lparr>calls := calls w @ [c], errno := (case e of None \<Rightarrow> errno w | Some v \<Rightarrow> v)\<rparr>"

definition bnd :: "fault + 'a \<Rightarrow> ('a \<Rightarrow> fault + 'b) \<Rightarrow> fault + 'b" where
  "bnd m k = (case m of Inl f \<Rightarrow> Inl f | Inr x \<Rightarrow> k x)"

subsection \<open>The table of open directory handles\<close>

text \<open>
  \<^verbatim>\<open>in_list\<close> with its \<^verbatim>\<open>for\<close> loop, \<^verbatim>\<open>push_list\<close> and the macros
  \<^verbatim>\<open>push_dir\<close> and \<^verbatim>\<open>is_dir\<close>. Removal stores the last live entry over the one
  found and decrements the count. The count and the loop index are natural numbers: the count
  starts at 0 and is decremented only below an index that is smaller than it. \<open>tracked\<close> is
  the set of handles in the live part of the array.
\<close>

function in_list_loop :: "nat \<Rightarrow> nat list \<Rightarrow> nat \<Rightarrow> bool \<Rightarrow> nat \<Rightarrow> int \<times> nat list \<times> nat" where
  "in_list_loop p list cnt remove i =
     (if i < cnt then
        (if list ! i = p then
           (if remove then (1, list[i := list ! (cnt - 1)], cnt - 1) else (1, list, cnt))
         else in_list_loop p list cnt remove (i + 1))
      else (0, list, cnt))"
  by pat_completeness auto
termination
  by (relation "measure (\<lambda>(p, list, cnt, remove, i). cnt - i)") auto

declare in_list_loop.simps [simp del]

definition in_list :: "nat \<Rightarrow> nat list \<Rightarrow> nat \<Rightarrow> bool \<Rightarrow> int \<times> nat list \<times> nat" where
  "in_list p list cnt remove = in_list_loop p list cnt remove 0"

definition push_dir :: "nat \<Rightarrow> world \<Rightarrow> world" where
  "push_dir x w = w\<lparr>dir_list := (dir_list w)[dir_count w := x], dir_count := dir_count w + 1\<rparr>"

definition is_dir :: "nat \<Rightarrow> bool \<Rightarrow> world \<Rightarrow> int \<times> world" where
  "is_dir x y w =
     (case in_list x (dir_list w) (dir_count w) y of
        (found, list, cnt) \<Rightarrow> (found, w\<lparr>dir_list := list, dir_count := cnt\<rparr>))"

definition tracked :: "world \<Rightarrow> nat set" where
  "tracked w = set (take (dir_count w) (dir_list w))"

text \<open>
  Three predicates on the table: \<open>same_table w w'\<close> (array and count are the same in both
  states), \<open>table_ok\<close> (the array has its \<^verbatim>\<open>dir_limit\<close> cells and the count does not point
  past them) and \<open>handles_distinct\<close> (no handle is in the live part twice).
\<close>

definition same_table :: "world \<Rightarrow> world \<Rightarrow> bool" where
  "same_table w w' = (dir_list w' = dir_list w \<and> dir_count w' = dir_count w)"

definition table_ok :: "world \<Rightarrow> bool" where
  "table_ok w = (length (dir_list w) = dir_limit \<and> dir_count w \<le> dir_limit)"

definition handles_distinct :: "world \<Rightarrow> bool" where
  "handles_distinct w = distinct (take (dir_count w) (dir_list w))"

subsection \<open>The operations\<close>

text \<open>
  Each operation takes \<^verbatim>\<open>argc\<close>, its arguments, the current contents of its output
  slots, the answers of the native calls it may make (for a lookup of a user or a group,
  the database that the native lookup searches) and the process state, and returns
  its result, the slots and the new state. \<^verbatim>\<open>check_argc (x)\<close> is the first test of the
  operations that have it.

  The constants of \<^verbatim>\<open><time.h>\<close> and \<^verbatim>\<open><syslog.h>\<close> carry their Linux values; no
  property below depends on them beyond the worked example of \<^verbatim>\<open>openlog\<close>.
\<close>

definition posix_time :: "int \<Rightarrow> int native \<Rightarrow> world \<Rightarrow> int \<times> world" where
  "posix_time argc r w = (fst r, native N_time (snd r) w)"

definition CLOCK_REALTIME :: int where "CLOCK_REALTIME = 0"
definition CLOCK_MONOTONIC :: int where "CLOCK_MONOTONIC = 1"
definition CLOCK_PROCESS_CPUTIME_ID :: int where "CLOCK_PROCESS_CPUTIME_ID = 2"
definition CLOCK_THREAD_CPUTIME_ID :: int where "CLOCK_THREAD_CPUTIME_ID = 3"
definition CLOCK_MONOTONIC_RAW :: int where "CLOCK_MONOTONIC_RAW = 4"

definition clk_id_param :: "param list" where
  "clk_id_param =
     [\<lparr>p_name = ''REALTIME'', p_value = CLOCK_REALTIME\<rparr>,
      \<lparr>p_name = ''MONOTONIC'', p_value = CLOCK_MONOTONIC\<rparr>,
      \<lparr>p_name = ''MONOTONIC_RAW'', p_value = CLOCK_MONOTONIC_RAW\<rparr>,
      \<lparr>p_name = ''PROCESS_CPUTIME_ID'', p_value = CLOCK_PROCESS_CPUTIME_ID\<rparr>,
      \<lparr>p_name = ''THREAD_CPUTIME_ID'', p_value = CLOCK_THREAD_CPUTIME_ID\<rparr>]"

definition u_posix_clock_get ::
  "int \<Rightarrow> string \<Rightarrow> timespec \<Rightarrow> bool \<Rightarrow> timespec option native \<Rightarrow> world \<Rightarrow> status \<times> timespec \<times> world" where
  "u_posix_clock_get argc clk_id_name slots gettime r w =
     (if argc \<noteq> 3 then (ENODATA, slots, w)
      else case u_get_param clk_id_param clk_id_name of
        None \<Rightarrow> (EINVAL, slots, w)
      | Some clk_id \<Rightarrow>
          let b0 = \<lparr>tv_sec = 0, tv_nsec = 0\<rparr>;
              w1 = clear_errno w;
              w2 = native (if gettime then N_clock_gettime clk_id else N_clock_getres clk_id) (snd r) w1;
              b = (case fst r of Some t \<Rightarrow> t | None \<Rightarrow> b0)
          in (errno w2, \<lparr>tv_sec = tv_sec b, tv_nsec = tv_nsec b\<rparr>, w2))"

definition posix_clock_gettime ::
  "int \<Rightarrow> string \<Rightarrow> timespec \<Rightarrow> timespec option native \<Rightarrow> world \<Rightarrow> status \<times> timespec \<times> world" where
  "posix_clock_gettime argc clk_id_name slots r w = u_posix_clock_get argc clk_id_name slots True r w"

definition posix_clock_getres ::
  "int \<Rightarrow> string \<Rightarrow> timespec \<Rightarrow> timespec option native \<Rightarrow> world \<Rightarrow> status \<times> timespec \<times> world" where
  "posix_clock_getres argc clk_id_name slots r w = u_posix_clock_get argc clk_id_name slots False r w"

definition u_posix_time ::
  "int \<Rightarrow> int \<Rightarrow> tm \<Rightarrow> bool \<Rightarrow> tm option native \<Rightarrow> world \<Rightarrow> status \<times> tm \<times> world" where
  "u_posix_time argc t slots local r w =
     (if argc \<noteq> 10 then (ENODATA, slots, w)
      else
        let w1 = clear_errno w;
            w2 = native (if local then N_localtime t else N_gmtime t) (snd r) w1
        in case fst r of
             Some b \<Rightarrow>
               (errno w2,
                \<lparr>tm_sec = tm_sec b, tm_min = tm_min b, tm_hour = tm_hour b, tm_mday = tm_mday b,
                 tm_mon = tm_mon b, tm_year = tm_year b, tm_wday = tm_wday b, tm_yday = tm_yday b,
                 tm_isdst = tm_isdst b\<rparr>, w2)
           | None \<Rightarrow>
               (errno w2,
                \<lparr>tm_sec = 0, tm_min = 0, tm_hour = 0, tm_mday = 0, tm_mon = 0, tm_year = 0,
                 tm_wday = 0, tm_yday = 0, tm_isdst = 0\<rparr>, w2))"

definition posix_localtime ::
  "int \<Rightarrow> int \<Rightarrow> tm \<Rightarrow> tm option native \<Rightarrow> world \<Rightarrow> status \<times> tm \<times> world" where
  "posix_localtime argc t slots r w = u_posix_time argc t slots True r w"

definition posix_gmtime ::
  "int \<Rightarrow> int \<Rightarrow> tm \<Rightarrow> tm option native \<Rightarrow> world \<Rightarrow> status \<times> tm \<times> world" where
  "posix_gmtime argc t slots r w = u_posix_time argc t slots False r w"

definition posix_mktime :: "int \<Rightarrow> tm \<Rightarrow> int native \<Rightarrow> world \<Rightarrow> int \<times> world" where
  "posix_mktime argc slots r w =
     (if argc \<noteq> 9 then (ENODATA, w)
      else
        let b = \<lparr>tm_sec = tm_sec slots, tm_min = tm_min slots, tm_hour = tm_hour slots,
                 tm_mday = tm_mday slots, tm_mon = tm_mon slots, tm_year = tm_year slots,
                 tm_wday = tm_wday slots, tm_yday = tm_yday slots, tm_isdst = tm_isdst slots\<rparr>
        in (fst r, native (N_mktime b) (snd r) w))"

definition posix_strftime ::
  "int \<Rightarrow> string \<Rightarrow> tm \<Rightarrow> string \<Rightarrow> string native \<Rightarrow> world \<Rightarrow> fault + (status \<times> string \<times> world)" where
  "posix_strftime argc format slots s r w =
     (if argc \<noteq> 11 then Inr (ENODATA, s, w)
      else
        let b = \<lparr>tm_sec = tm_sec slots, tm_min = tm_min slots, tm_hour = tm_hour slots,
                 tm_mday = tm_mday slots, tm_mon = tm_mon slots, tm_year = tm_year slots,
                 tm_wday = tm_wday slots, tm_yday = tm_yday slots, tm_isdst = tm_isdst slots\<rparr>
        in bnd (poke s 0 NUL) (\<lambda>s1.
             let w1 = clear_errno w;
                 w2 = native (N_strftime format b) (snd r) w1
             in bnd (pokes s1 0 (take 127 (fst r))) (\<lambda>s2.
                  bnd (poke s2 127 NUL) (\<lambda>s3. Inr (errno w2, s3, w2)))))"

definition posix_times :: "int \<Rightarrow> tms \<Rightarrow> tms option native \<Rightarrow> world \<Rightarrow> status \<times> tms \<times> world" where
  "posix_times argc slots r w =
     (if argc \<noteq> 4 then (ENODATA, slots, w)
      else
        let b0 = \<lparr>tms_utime = 0, tms_stime = 0, tms_cutime = 0, tms_cstime = 0\<rparr>;
            w1 = clear_errno w;
            w2 = native N_times (snd r) w1;
            b = (case fst r of Some t \<Rightarrow> t | None \<Rightarrow> b0)
        in (errno w2,
            \<lparr>tms_utime = tms_utime b, tms_stime = tms_stime b, tms_cutime = tms_cutime b,
             tms_cstime = tms_cstime b\<rparr>, w2))"

definition posix_sysinfo ::
  "int \<Rightarrow> sysinfo_buf \<Rightarrow> sysinfo_buf option native \<Rightarrow> world \<Rightarrow> status \<times> sysinfo_buf \<times> world" where
  "posix_sysinfo argc slots r w =
     (if argc \<noteq> 14 then (ENODATA, slots, w)
      else
        let w1 = clear_errno w;
            w2 = native N_sysinfo (snd r) w1
        in case fst r of
             Some b \<Rightarrow>
               (errno w2,
                \<lparr>uptime = uptime b, load1 = load1 b, load5 = load5 b, load15 = load15 b,
                 totalram = totalram b, freeram = freeram b, sharedram = sharedram b,
                 bufferram = bufferram b, totalswap = totalswap b, freeswap = freeswap b,
                 procs = procs b, totalhigh = totalhigh b, freehigh = freehigh b,
                 mem_unit = mem_unit b\<rparr>, w2)
           | None \<Rightarrow> (errno w2, slots, w2))"

definition posix_uname ::
  "int \<Rightarrow> utsname \<Rightarrow> utsname option native \<Rightarrow> world \<Rightarrow> fault + (status \<times> utsname \<times> world)" where
  "posix_uname argc slots r w =
     (if argc \<noteq> 5 then Inr (ENODATA, slots, w)
      else
        let w1 = clear_errno w
        in bnd (poke (sysname slots) 0 NUL) (\<lambda>sysname1.
           bnd (poke (nodename slots) 0 NUL) (\<lambda>nodename1.
           bnd (poke (release slots) 0 NUL) (\<lambda>release1.
           bnd (poke (version slots) 0 NUL) (\<lambda>version1.
           bnd (poke (machine slots) 0 NUL) (\<lambda>machine1.
             let w2 = native N_uname (snd r) w1
             in case fst r of
                  None \<Rightarrow>
                    Inr (errno w2,
                         \<lparr>sysname = sysname1, nodename = nodename1, release = release1,
                          version = version1, machine = machine1\<rparr>, w2)
                | Some b \<Rightarrow>
                    bnd (strncopy sysname1 0 (sysname b) 128) (\<lambda>(rv1, sysname2).
                      if rv1 \<noteq> 0 then
                        Inr (ERANGE,
                             \<lparr>sysname = sysname2, nodename = nodename1, release = release1,
                              version = version1, machine = machine1\<rparr>, w2)
                      else
                    bnd (strncopy nodename1 0 (nodename b) 128) (\<lambda>(rv2, nodename2).
                      if rv2 \<noteq> 0 then
                        Inr (ERANGE,
                             \<lparr>sysname = sysname2, nodename = nodename2, release = release1,
                              version = version1, machine = machine1\<rparr>, w2)
                      else
                    bnd (strncopy release1 0 (release b) 128) (\<lambda>(rv3, release2).
                      if rv3 \<noteq> 0 then
                        Inr (ERANGE,
                             \<lparr>sysname = sysname2, nodename = nodename2, release = release2,
                              version = version1, machine = machine1\<rparr>, w2)
                      else
                    bnd (strncopy version1 0 (version b) 128) (\<lambda>(rv4, version2).
                      if rv4 \<noteq> 0 then
                        Inr (ERANGE,
                             \<lparr>sysname = sysname2, nodename = nodename2, release = release2,
                              version = version2, machine = machine1\<rparr>, w2)
                      else
                    bnd (strncopy machine1 0 (machine b) 128) (\<lambda>(rv5, machine2).
                      if rv5 \<noteq> 0 then
                        Inr (ERANGE,
                             \<lparr>sysname = sysname2, nodename = nodename2, release = release2,
                              version = version2, machine = machine2\<rparr>, w2)
                      else
                        Inr (errno w2,
                             \<lparr>sysname = sysname2, nodename = nodename2, release = release2,
                              version = version2, machine = machine2\<rparr>, w2))))))))))))"

definition posix_setenv :: "int \<Rightarrow> string \<Rightarrow> string \<Rightarrow> int \<Rightarrow> int native \<Rightarrow> world \<Rightarrow> status \<times> world" where
  "posix_setenv argc name val overwrite r w =
     (if argc \<noteq> 3 then (ENODATA, w)
      else let w1 = native (N_setenv name val overwrite) (snd r) w in (errno w1, w1))"

definition posix_unsetenv :: "int \<Rightarrow> string \<Rightarrow> int native \<Rightarrow> world \<Rightarrow> status \<times> world" where
  "posix_unsetenv argc name r w =
     (if argc \<noteq> 1 then (ENODATA, w)
      else let w1 = native (N_unsetenv name) (snd r) w in (errno w1, w1))"

definition LOG_PID :: int where "LOG_PID = 1"
definition LOG_CONS :: int where "LOG_CONS = 2"
definition LOG_NDELAY :: int where "LOG_NDELAY = 8"
definition LOG_NOWAIT :: int where "LOG_NOWAIT = 16"

definition option_param :: "param list" where
  "option_param =
     [\<lparr>p_name = ''CONS'', p_value = LOG_CONS\<rparr>,
      \<lparr>p_name = ''NDELAY'', p_value = LOG_NDELAY\<rparr>,
      \<lparr>p_name = ''NOWAIT'', p_value = LOG_NOWAIT\<rparr>,
      \<lparr>p_name = ''PID'', p_value = LOG_PID\<rparr>]"

definition LOG_AUTH :: int where "LOG_AUTH = 32"
definition LOG_AUTHPRIV :: int where "LOG_AUTHPRIV = 80"
definition LOG_CRON :: int where "LOG_CRON = 72"
definition LOG_DAEMON :: int where "LOG_DAEMON = 24"
definition LOG_FTP :: int where "LOG_FTP = 88"
definition LOG_KERN :: int where "LOG_KERN = 0"
definition LOG_LOCAL0 :: int where "LOG_LOCAL0 = 128"
definition LOG_LOCAL1 :: int where "LOG_LOCAL1 = 136"
definition LOG_LOCAL2 :: int where "LOG_LOCAL2 = 144"
definition LOG_LOCAL3 :: int where "LOG_LOCAL3 = 152"
definition LOG_LOCAL4 :: int where "LOG_LOCAL4 = 160"
definition LOG_LOCAL5 :: int where "LOG_LOCAL5 = 168"
definition LOG_LOCAL6 :: int where "LOG_LOCAL6 = 176"
definition LOG_LOCAL7 :: int where "LOG_LOCAL7 = 184"
definition LOG_LPR :: int where "LOG_LPR = 48"
definition LOG_MAIL :: int where "LOG_MAIL = 16"
definition LOG_NEWS :: int where "LOG_NEWS = 56"
definition LOG_SYSLOG :: int where "LOG_SYSLOG = 40"
definition LOG_USER :: int where "LOG_USER = 8"
definition LOG_UUCP :: int where "LOG_UUCP = 64"

definition facility_param :: "param list" where
  "facility_param =
     [\<lparr>p_name = ''AUTH'', p_value = LOG_AUTH\<rparr>,
      \<lparr>p_name = ''AUTHPRIV'', p_value = LOG_AUTHPRIV\<rparr>,
      \<lparr>p_name = ''CRON'', p_value = LOG_CRON\<rparr>,
      \<lparr>p_name = ''DAEMON'', p_value = LOG_DAEMON\<rparr>,
      \<lparr>p_name = ''FTP'', p_value = LOG_FTP\<rparr>,
      \<lparr>p_name = ''KERN'', p_value = LOG_KERN\<rparr>,
      \<lparr>p_name = ''LOCAL0'', p_value = LOG_LOCAL0\<rparr>,
      \<lparr>p_name = ''LOCAL1'', p_value = LOG_LOCAL1\<rparr>,
      \<lparr>p_name = ''LOCAL2'', p_value = LOG_LOCAL2\<rparr>,
      \<lparr>p_name = ''LOCAL3'', p_value = LOG_LOCAL3\<rparr>,
      \<lparr>p_name = ''LOCAL4'', p_value = LOG_LOCAL4\<rparr>,
      \<lparr>p_name = ''LOCAL5'', p_value = LOG_LOCAL5\<rparr>,
      \<lparr>p_name = ''LOCAL6'', p_value = LOG_LOCAL6\<rparr>,
      \<lparr>p_name = ''LOCAL7'', p_value = LOG_LOCAL7\<rparr>,
      \<lparr>p_name = ''LPR'', p_value = LOG_LPR\<rparr>,
      \<lparr>p_name = ''MAIL'', p_value = LOG_MAIL\<rparr>,
      \<lparr>p_name = ''NEWS'', p_value = LOG_NEWS\<rparr>,
      \<lparr>p_name = ''SYSLOG'', p_value = LOG_SYSLOG\<rparr>,
      \<lparr>p_name = ''USER'', p_value = LOG_USER\<rparr>,
      \<lparr>p_name = ''UUCP'', p_value = LOG_UUCP\<rparr>]"

definition LOG_EMERG :: int where "LOG_EMERG = 0"
definition LOG_ALERT :: int where "LOG_ALERT = 1"
definition LOG_CRIT :: int where "LOG_CRIT = 2"
definition LOG_ERR :: int where "LOG_ERR = 3"
definition LOG_WARNING :: int where "LOG_WARNING = 4"
definition LOG_NOTICE :: int where "LOG_NOTICE = 5"
definition LOG_INFO :: int where "LOG_INFO = 6"
definition LOG_DEBUG :: int where "LOG_DEBUG = 7"

definition priority_param :: "param list" where
  "priority_param =
     [\<lparr>p_name = ''EMERG'', p_value = LOG_EMERG\<rparr>,
      \<lparr>p_name = ''ALERT'', p_value = LOG_ALERT\<rparr>,
      \<lparr>p_name = ''CRIT'', p_value = LOG_CRIT\<rparr>,
      \<lparr>p_name = ''ERR'', p_value = LOG_ERR\<rparr>,
      \<lparr>p_name = ''WARNING'', p_value = LOG_WARNING\<rparr>,
      \<lparr>p_name = ''NOTICE'', p_value = LOG_NOTICE\<rparr>,
      \<lparr>p_name = ''INFO'', p_value = LOG_INFO\<rparr>,
      \<lparr>p_name = ''DEBUG'', p_value = LOG_DEBUG\<rparr>]"

definition posix_openlog ::
  "int \<Rightarrow> string \<Rightarrow> string \<Rightarrow> string \<Rightarrow> bool native \<Rightarrow> int option \<Rightarrow> world \<Rightarrow> status \<times> world" where
  "posix_openlog argc ident option_name facility_name rm ro w =
     (if argc \<noteq> 3 then (ENODATA, w)
      else
        let s = length ident + 1;
            w1 = clear_errno w;
            w2 = native (N_malloc s) (snd rm) w1
        in if \<not> fst rm then (errno w2, w2)
           else case u_get_flags option_param option_name of
                  None \<Rightarrow> (EINVAL, w2)
                | Some opt \<Rightarrow>
                    (case u_get_flags facility_param facility_name of
                       None \<Rightarrow> (EINVAL, w2)
                     | Some facility \<Rightarrow>
                         let w3 = native (N_openlog ident opt facility) ro w2
                         in (errno w3, w3)))"

definition posix_syslog :: "int \<Rightarrow> string \<Rightarrow> string \<Rightarrow> int option \<Rightarrow> world \<Rightarrow> status \<times> world" where
  "posix_syslog argc priority_name message r w =
     (if argc \<noteq> 2 then (ENODATA, w)
      else case u_get_param priority_param priority_name of
             None \<Rightarrow> (EINVAL, w)
           | Some priority \<Rightarrow>
               let w1 = clear_errno w;
                   w2 = native (N_syslog priority message) r w1
               in (errno w2, w2))"

definition posix_umask :: "int \<Rightarrow> int \<Rightarrow> int native \<Rightarrow> world \<Rightarrow> int \<times> world" where
  "posix_umask argc msk r w =
     (if argc \<noteq> 1 then (ENODATA, w)
      else (fst r, native (N_umask msk) (snd r) w))"

definition u_posix_stat ::
  "int \<Rightarrow> string \<Rightarrow> stat_buf \<Rightarrow> bool \<Rightarrow> stat_buf option native \<Rightarrow> world \<Rightarrow> status \<times> stat_buf \<times> world" where
  "u_posix_stat argc path slots l r w =
     (if argc \<noteq> 14 then (ENODATA, slots, w)
      else
        let w1 = clear_errno w;
            w2 = native (if l then N_lstat path else N_stat path) (snd r) w1
        in case fst r of
             Some b \<Rightarrow>
               (errno w2,
                \<lparr>st_dev = st_dev b, st_ino = st_ino b, st_mode = st_mode b, st_nlink = st_nlink b,
                 st_uid = st_uid b, st_gid = st_gid b, st_rdev = st_rdev b, st_size = st_size b,
                 st_blksize = st_blksize b, st_blocks = st_blocks b, st_atime = st_atime b,
                 st_mtime = st_mtime b, st_ctime = st_ctime b\<rparr>, w2)
           | None \<Rightarrow> (errno w2, slots, w2))"

definition posix_stat ::
  "int \<Rightarrow> string \<Rightarrow> stat_buf \<Rightarrow> stat_buf option native \<Rightarrow> world \<Rightarrow> status \<times> stat_buf \<times> world" where
  "posix_stat argc path slots r w = u_posix_stat argc path slots False r w"

definition posix_lstat ::
  "int \<Rightarrow> string \<Rightarrow> stat_buf \<Rightarrow> stat_buf option native \<Rightarrow> world \<Rightarrow> status \<times> stat_buf \<times> world" where
  "posix_lstat argc path slots r w = u_posix_stat argc path slots True r w"

definition posix_readlink ::
  "int \<Rightarrow> string \<Rightarrow> string \<Rightarrow> string option native \<Rightarrow> world \<Rightarrow> fault + (status \<times> string \<times> world)" where
  "posix_readlink argc path name r w =
     (if argc \<noteq> 2 then Inr (ENODATA, name, w)
      else
        let w1 = clear_errno w;
            w2 = native (N_readlink path) (snd r) w1;
            s = (case fst r of None \<Rightarrow> - 1 | Some target \<Rightarrow> int (min (length target) 1023))
        in bnd (case fst r of None \<Rightarrow> Inr name | Some target \<Rightarrow> pokes name 0 (take 1023 target))
             (\<lambda>name1. bnd (poke name1 s NUL) (\<lambda>name2. Inr (errno w2, name2, w2))))"

definition u_posix_link ::
  "int \<Rightarrow> string \<Rightarrow> string \<Rightarrow> bool \<Rightarrow> int native \<Rightarrow> world \<Rightarrow> status \<times> world" where
  "u_posix_link argc oldpath newpath symb r w =
     (if argc \<noteq> 2 then (ENODATA, w)
      else
        let w1 = clear_errno w;
            w2 = native (if symb then N_symlink oldpath newpath else N_link oldpath newpath) (snd r) w1
        in (errno w2, w2))"

definition posix_link :: "int \<Rightarrow> string \<Rightarrow> string \<Rightarrow> int native \<Rightarrow> world \<Rightarrow> status \<times> world" where
  "posix_link argc oldpath newpath r w = u_posix_link argc oldpath newpath False r w"

definition posix_symlink :: "int \<Rightarrow> string \<Rightarrow> string \<Rightarrow> int native \<Rightarrow> world \<Rightarrow> status \<times> world" where
  "posix_symlink argc oldpath newpath r w = u_posix_link argc oldpath newpath True r w"

definition posix_unlink :: "int \<Rightarrow> string \<Rightarrow> int native \<Rightarrow> world \<Rightarrow> status \<times> world" where
  "posix_unlink argc path r w =
     (if argc \<noteq> 1 then (ENODATA, w)
      else
        let w1 = clear_errno w;
            w2 = native (N_unlink path) (snd r) w1
        in (errno w2, w2))"

definition posix_mkdir :: "int \<Rightarrow> string \<Rightarrow> int \<Rightarrow> int native \<Rightarrow> world \<Rightarrow> status \<times> world" where
  "posix_mkdir argc path md r w =
     (if argc \<noteq> 2 then (ENODATA, w)
      else
        let w1 = clear_errno w;
            w2 = native (N_mkdir path md) (snd r) w1
        in (errno w2, w2))"

definition posix_rmdir :: "int \<Rightarrow> string \<Rightarrow> int native \<Rightarrow> world \<Rightarrow> status \<times> world" where
  "posix_rmdir argc path r w =
     (if argc \<noteq> 1 then (ENODATA, w)
      else
        let w1 = clear_errno w;
            w2 = native (N_rmdir path) (snd r) w1
        in (errno w2, w2))"

definition posix_chmod :: "int \<Rightarrow> string \<Rightarrow> int \<Rightarrow> int native \<Rightarrow> world \<Rightarrow> status \<times> world" where
  "posix_chmod argc path md r w =
     (if argc \<noteq> 2 then (ENODATA, w)
      else
        let w1 = clear_errno w;
            w2 = native (N_chmod path md) (snd r) w1
        in (errno w2, w2))"

definition u_posix_chown ::
  "int \<Rightarrow> string \<Rightarrow> int \<Rightarrow> int \<Rightarrow> bool \<Rightarrow> int native \<Rightarrow> world \<Rightarrow> status \<times> world" where
  "u_posix_chown argc path uid gid l r w =
     (if argc \<noteq> 3 then (ENODATA, w)
      else
        let w1 = clear_errno w;
            w2 = native (if l then N_lchown path uid gid else N_chown path uid gid) (snd r) w1
        in (errno w2, w2))"

definition posix_chown :: "int \<Rightarrow> string \<Rightarrow> int \<Rightarrow> int \<Rightarrow> int native \<Rightarrow> world \<Rightarrow> status \<times> world" where
  "posix_chown argc path uid gid r w = u_posix_chown argc path uid gid False r w"

definition posix_lchown :: "int \<Rightarrow> string \<Rightarrow> int \<Rightarrow> int \<Rightarrow> int native \<Rightarrow> world \<Rightarrow> status \<times> world" where
  "posix_lchown argc path uid gid r w = u_posix_chown argc path uid gid True r w"

text \<open>
  The lookups of the C library answer from the password database and the group database,
  given here as the lists of their entries \<open>db\<close>: \<^verbatim>\<open>getpwuid\<close> and
  \<^verbatim>\<open>getpwnam\<close> (\<^verbatim>\<open>getgrgid\<close>, \<^verbatim>\<open>getgrnam\<close>) return the first entry with
  the id or the name asked for, or \<^verbatim>\<open>NULL\<close> (\<open>None\<close>) when the database has none.
  What the call stores into \<^verbatim>\<open>errno\<close>, if anything, is the parameter \<open>e\<close> of the
  operation. The id is narrowed from \<^verbatim>\<open>gtm_ulong_t\<close> to \<^verbatim>\<open>uid_t\<close>
  (\<^verbatim>\<open>gid_t\<close>) where the source passes it to the native lookup.
\<close>

definition getpwuid :: "passwd list \<Rightarrow> uid_t \<Rightarrow> passwd option" where
  "getpwuid db uid = find (\<lambda>b. pw_uid b = uint uid) db"

definition getpwnam :: "passwd list \<Rightarrow> string \<Rightarrow> passwd option" where
  "getpwnam db name = find (\<lambda>b. pw_name b = name) db"

definition getgrgid :: "'m grp list \<Rightarrow> gid_t \<Rightarrow> 'm grp option" where
  "getgrgid db gid = find (\<lambda>g. gr_gid g = uint gid) db"

definition getgrnam :: "'m grp list \<Rightarrow> string \<Rightarrow> 'm grp option" where
  "getgrnam db name = find (\<lambda>g. gr_name g = name) db"

definition u_posix_getpw ::
  "int \<Rightarrow> string option \<Rightarrow> gtm_ulong_t \<Rightarrow> passwd \<Rightarrow> passwd list \<Rightarrow> int option \<Rightarrow> world
     \<Rightarrow> fault + (status \<times> passwd \<times> world)" where
  "u_posix_getpw argc name uid slots db e w =
     (if argc \<noteq> 8 then Inr (ENODATA, slots, w)
      else
        bnd (poke (pw_name slots) 0 NUL) (\<lambda>n1.
        bnd (poke (pw_passwd slots) 0 NUL) (\<lambda>p1.
        bnd (poke (pw_gecos slots) 0 NUL) (\<lambda>g1.
        bnd (poke (pw_dir slots) 0 NUL) (\<lambda>d1.
        bnd (poke (pw_shell slots) 0 NUL) (\<lambda>sh1.
          let s1 = \<lparr>pw_name = n1, pw_passwd = p1, pw_uid = 0, pw_gid = 0, pw_gecos = g1,
                    pw_dir = d1, pw_shell = sh1\<rparr>;
              w1 = clear_errno w;
              w2 = native (case name of None \<Rightarrow> N_getpwuid (ucast uid) | Some nm \<Rightarrow> N_getpwnam nm) e w1
          in case (case name of None \<Rightarrow> getpwuid db (ucast uid) | Some nm \<Rightarrow> getpwnam db nm) of
               Some b \<Rightarrow>
                 let s2 = s1\<lparr>pw_uid := pw_uid b, pw_gid := pw_gid b\<rparr>
                 in bnd (strncopy n1 0 (pw_name b) 64) (\<lambda>(rv1, n2).
                      if rv1 \<noteq> 0 then Inr (ERANGE, s2\<lparr>pw_name := n2\<rparr>, w2)
                      else
                    bnd (strncopy p1 0 (pw_passwd b) 64) (\<lambda>(rv2, p2).
                      if rv2 \<noteq> 0 then Inr (ERANGE, s2\<lparr>pw_name := n2, pw_passwd := p2\<rparr>, w2)
                      else
                    bnd (strncopy g1 0 (pw_gecos b) 256) (\<lambda>(rv3, g2).
                      if rv3 \<noteq> 0 then
                        Inr (ERANGE, s2\<lparr>pw_name := n2, pw_passwd := p2, pw_gecos := g2\<rparr>, w2)
                      else
                    bnd (strncopy d1 0 (pw_dir b) 1024) (\<lambda>(rv4, d2).
                      if rv4 \<noteq> 0 then
                        Inr (ERANGE,
                             s2\<lparr>pw_name := n2, pw_passwd := p2, pw_gecos := g2, pw_dir := d2\<rparr>, w2)
                      else
                    bnd (strncopy sh1 0 (pw_shell b) 1024) (\<lambda>(rv5, sh2).
                      if rv5 \<noteq> 0 then
                        Inr (ERANGE,
                             s2\<lparr>pw_name := n2, pw_passwd := p2, pw_gecos := g2, pw_dir := d2,
                                pw_shell := sh2\<rparr>, w2)
                      else
                        Inr (errno w2,
                             s2\<lparr>pw_name := n2, pw_passwd := p2, pw_gecos := g2, pw_dir := d2,
                                pw_shell := sh2\<rparr>, w2))))))
             | None \<Rightarrow>
                 let w3 = w2\<lparr>errno := ENOENT\<rparr>
                 in Inr (errno w3, s1, w3)))))))"

definition posix_getpwnam ::
  "int \<Rightarrow> string \<Rightarrow> passwd \<Rightarrow> passwd list \<Rightarrow> int option \<Rightarrow> world
     \<Rightarrow> fault + (status \<times> passwd \<times> world)" where
  "posix_getpwnam argc name slots db e w = u_posix_getpw argc (Some name) 0 slots db e w"

definition posix_getpwuid ::
  "int \<Rightarrow> gtm_ulong_t \<Rightarrow> passwd \<Rightarrow> passwd list \<Rightarrow> int option \<Rightarrow> world
     \<Rightarrow> fault + (status \<times> passwd \<times> world)" where
  "posix_getpwuid argc uid slots db e w = u_posix_getpw argc None uid slots db e w"

fun gr_mem_loop :: "string \<Rightarrow> int \<Rightarrow> int \<Rightarrow> nat \<Rightarrow> string list \<Rightarrow> fault + (bool \<times> string)" where
  "gr_mem_loop buf p l i [] = Inr (True, buf)"
| "gr_mem_loop buf p l i (m # ms) =
     (case (if i > 0 then strpncopy buf p [list_delimiter] l else Inr (Some p, l, buf)) of
        Inl f \<Rightarrow> Inl f
      | Inr (None, l1, buf1) \<Rightarrow> Inr (False, buf1)
      | Inr (Some q1, l1, buf1) \<Rightarrow>
          (case strpncopy buf1 q1 m l1 of
             Inl f \<Rightarrow> Inl f
           | Inr (None, l2, buf2) \<Rightarrow> Inr (False, buf2)
           | Inr (Some q2, l2, buf2) \<Rightarrow> gr_mem_loop buf2 q2 l2 (i + 1) ms))"

definition u_posix_getgr ::
  "int \<Rightarrow> string option \<Rightarrow> gtm_ulong_t \<Rightarrow> string grp \<Rightarrow> string list grp list \<Rightarrow> int option \<Rightarrow> world
     \<Rightarrow> fault + (status \<times> string grp \<times> world)" where
  "u_posix_getgr argc name gid slots db e w =
     (if argc \<noteq> 5 then Inr (ENODATA, slots, w)
      else
        bnd (poke (gr_name slots) 0 NUL) (\<lambda>n1.
        bnd (poke (gr_passwd slots) 0 NUL) (\<lambda>p1.
        bnd (poke (gr_mem slots) 0 NUL) (\<lambda>m1.
          let s1 = \<lparr>gr_name = n1, gr_passwd = p1, gr_gid = 0, gr_mem = m1\<rparr>;
              w1 = clear_errno w;
              w2 = native (case name of None \<Rightarrow> N_getgrgid (ucast gid) | Some nm \<Rightarrow> N_getgrnam nm) e w1
          in case (case name of None \<Rightarrow> getgrgid db (ucast gid) | Some nm \<Rightarrow> getgrnam db nm) of
               Some g \<Rightarrow>
                 let s2 = s1\<lparr>gr_gid := gr_gid g\<rparr>
                 in bnd (strncopy n1 0 (gr_name g) 64) (\<lambda>(rv1, n2).
                      if rv1 \<noteq> 0 then Inr (ERANGE, s2\<lparr>gr_name := n2\<rparr>, w2)
                      else
                    bnd (strncopy p1 0 (gr_passwd g) 64) (\<lambda>(rv2, p2).
                      if rv2 \<noteq> 0 then Inr (ERANGE, s2\<lparr>gr_name := n2, gr_passwd := p2\<rparr>, w2)
                      else
                    bnd (gr_mem_loop m1 0 4096 0 (gr_mem g)) (\<lambda>(ok, m2).
                      if \<not> ok then
                        Inr (ERANGE, s2\<lparr>gr_name := n2, gr_passwd := p2, gr_mem := m2\<rparr>, w2)
                      else
                        Inr (errno w2, s2\<lparr>gr_name := n2, gr_passwd := p2, gr_mem := m2\<rparr>, w2))))
             | None \<Rightarrow>
                 let w3 = w2\<lparr>errno := ENOENT\<rparr>
                 in Inr (errno w3, s1, w3)))))"

definition posix_getgrnam ::
  "int \<Rightarrow> string \<Rightarrow> string grp \<Rightarrow> string list grp list \<Rightarrow> int option \<Rightarrow> world
     \<Rightarrow> fault + (status \<times> string grp \<times> world)" where
  "posix_getgrnam argc name slots db e w = u_posix_getgr argc (Some name) 0 slots db e w"

definition posix_getgrgid ::
  "int \<Rightarrow> gtm_ulong_t \<Rightarrow> string grp \<Rightarrow> string list grp list \<Rightarrow> int option \<Rightarrow> world
     \<Rightarrow> fault + (status \<times> string grp \<times> world)" where
  "posix_getgrgid argc gid slots db e w = u_posix_getgr argc None gid slots db e w"

fun grouplist_members ::
  "string \<Rightarrow> string \<Rightarrow> string list \<Rightarrow> string \<Rightarrow> int \<Rightarrow> int \<Rightarrow> nat
     \<Rightarrow> fault + (bool \<times> string \<times> int \<times> int \<times> nat)" where
  "grouplist_members name gname [] buf p l found = Inr (True, buf, p, l, found)"
| "grouplist_members name gname (m # ms) buf p l found =
     (if m = name then
        (case (if found \<noteq> 0 then strpncopy buf p [list_delimiter] l else Inr (Some p, l, buf)) of
           Inl f \<Rightarrow> Inl f
         | Inr (None, l1, buf1) \<Rightarrow> Inr (False, buf1, p, l1, found)
         | Inr (Some q1, l1, buf1) \<Rightarrow>
             (case strpncopy buf1 q1 gname l1 of
                Inl f \<Rightarrow> Inl f
              | Inr (None, l2, buf2) \<Rightarrow> Inr (False, buf2, q1, l2, found)
              | Inr (Some q2, l2, buf2) \<Rightarrow>
                  grouplist_members name gname ms buf2 q2 l2 (if found \<noteq> 0 then found else found + 1)))
      else grouplist_members name gname ms buf p l found)"

fun grouplist_loop ::
  "string \<Rightarrow> string list grp list \<Rightarrow> int option \<Rightarrow> string \<Rightarrow> int \<Rightarrow> int \<Rightarrow> nat \<Rightarrow> world
     \<Rightarrow> fault + (status \<times> string \<times> world)" where
  "grouplist_loop name [] e buf p l found w =
     (let w1 = native N_getgrent e w;
          w2 = native N_endgrent None w1
      in Inr (errno w2, buf, w2))"
| "grouplist_loop name (b # bs) e buf p l found w =
     (let w1 = native N_getgrent None w
      in case grouplist_members name (gr_name b) (gr_mem b) buf p l found of
           Inl f \<Rightarrow> Inl f
         | Inr (False, buf1, p1, l1, found1) \<Rightarrow>
             Inr (ERANGE, buf1, native N_endgrent None w1)
         | Inr (True, buf1, p1, l1, found1) \<Rightarrow> grouplist_loop name bs e buf1 p1 l1 found1 w1)"

definition posix_getgrouplist ::
  "int \<Rightarrow> string \<Rightarrow> string \<Rightarrow> string list grp list \<Rightarrow> int option \<Rightarrow> world
     \<Rightarrow> fault + (status \<times> string \<times> world)" where
  "posix_getgrouplist argc name list groups e w =
     (let w1 = clear_errno w
      in bnd (poke list 0 NUL) (\<lambda>list1. grouplist_loop name groups e list1 0 4096 0 w1))"

definition posix_opendir :: "int \<Rightarrow> string \<Rightarrow> nat \<Rightarrow> nat native \<Rightarrow> world \<Rightarrow> status \<times> nat \<times> world" where
  "posix_opendir argc path dir r w =
     (if argc \<noteq> 2 then (ENODATA, dir, w)
      else if dir_count w \<ge> dir_limit then (EMFILE, dir, w)
      else
        let w1 = clear_errno w;
            w2 = native (N_opendir path) (snd r) w1
        in if fst r \<noteq> 0 then
             let w3 = push_dir (fst r) w2 in (errno w3, fst r, w3)
           else (errno w2, dir, w2))"

definition posix_readdir ::
  "int \<Rightarrow> nat \<Rightarrow> string \<Rightarrow> string option native \<Rightarrow> world \<Rightarrow> fault + (status \<times> string \<times> world)" where
  "posix_readdir argc dir name r w =
     (if argc \<noteq> 2 then Inr (ENODATA, name, w)
      else
        bnd (poke name 0 NUL) (\<lambda>name1.
          case is_dir dir False w of
            (found, w0) \<Rightarrow>
              if found = 0 then Inr (EINVAL, name1, w0)
              else
                let w1 = clear_errno w0;
                    w2 = native (N_readdir dir) (snd r) w1
                in case fst r of
                     Some d_name \<Rightarrow>
                       bnd (strncopy name1 0 d_name 256) (\<lambda>(rv, name2).
                         if rv \<noteq> 0 then Inr (ERANGE, name2, w2) else Inr (errno w2, name2, w2))
                   | None \<Rightarrow> Inr (errno w2, name1, w2)))"

definition posix_closedir :: "int \<Rightarrow> nat \<Rightarrow> int native \<Rightarrow> world \<Rightarrow> status \<times> world" where
  "posix_closedir argc dir r w =
     (if argc \<noteq> 1 then (ENODATA, w)
      else case is_dir dir True w of
             (found, w0) \<Rightarrow>
               if found = 0 then (EINVAL, w0)
               else let w1 = native (N_closedir dir) (snd r) w0 in (errno w1, w1))"

subsection \<open>The exposed operations as one call table\<close>

text \<open>
  An \<open>invocation\<close> is one exposed operation with its arguments, output slots and native
  answers; \<open>invoke\<close> runs it and returns the invocation with its slots as the operation left
  them. \<open>arity\<close> is the number of arguments the operation is declared with (the count its
  \<^verbatim>\<open>check_argc\<close> names, where it has one) and \<open>checks_argc\<close> says whether the source
  of the operation contains the \<^verbatim>\<open>check_argc\<close> test. \<open>run\<close> makes a sequence of calls,
  stopping at a fault. \<open>fresh_handles\<close> says of such a sequence that no
  \<^verbatim>\<open>opendir\<close> answers with a handle that is still tracked: the C library never
  returns a directory stream that is open already.
\<close>

datatype invocation =
    Time "int native"
  | Clock_gettime string timespec "timespec option native"
  | Clock_getres string timespec "timespec option native"
  | Localtime int tm "tm option native"
  | Gmtime int tm "tm option native"
  | Mktime tm "int native"
  | Strftime string tm string "string native"
  | Times tms "tms option native"
  | Sysinfo sysinfo_buf "sysinfo_buf option native"
  | Uname utsname "utsname option native"
  | Setenv string string int "int native"
  | Unsetenv string "int native"
  | Openlog string string string "bool native" "int option"
  | Syslog string string "int option"
  | Umask int "int native"
  | Stat string stat_buf "stat_buf option native"
  | Lstat string stat_buf "stat_buf option native"
  | Readlink string string "string option native"
  | Link string string "int native"
  | Symlink string string "int native"
  | Unlink string "int native"
  | Mkdir string int "int native"
  | Rmdir string "int native"
  | Chmod string int "int native"
  | Chown string int int "int native"
  | Lchown string int int "int native"
  | Getpwnam string passwd "passwd list" "int option"
  | Getpwuid gtm_ulong_t passwd "passwd list" "int option"
  | Getgrnam string "string grp" "string list grp list" "int option"
  | Getgrgid gtm_ulong_t "string grp" "string list grp list" "int option"
  | Getgrouplist string string "string list grp list" "int option"
  | Opendir string nat "nat native"
  | Readdir nat string "string option native"
  | Closedir nat "int native"

primrec arity :: "invocation \<Rightarrow> int" where
  "arity (Time r) = 0"
| "arity (Clock_gettime clk_id_name slots r) = 3"
| "arity (Clock_getres clk_id_name slots r) = 3"
| "arity (Localtime t slots r) = 10"
| "arity (Gmtime t slots r) = 10"
| "arity (Mktime slots r) = 9"
| "arity (Strftime format slots s r) = 11"
| "arity (Times slots r) = 4"
| "arity (Sysinfo slots r) = 14"
| "arity (Uname slots r) = 5"
| "arity (Setenv name val overwrite r) = 3"
| "arity (Unsetenv name r) = 1"
| "arity (Openlog ident option_name facility_name rm ro) = 3"
| "arity (Syslog priority_name message r) = 2"
| "arity (Umask msk r) = 1"
| "arity (Stat path slots r) = 14"
| "arity (Lstat path slots r) = 14"
| "arity (Readlink path name r) = 2"
| "arity (Link oldpath newpath r) = 2"
| "arity (Symlink oldpath newpath r) = 2"
| "arity (Unlink path r) = 1"
| "arity (Mkdir path md r) = 2"
| "arity (Rmdir path r) = 1"
| "arity (Chmod path md r) = 2"
| "arity (Chown path uid gid r) = 3"
| "arity (Lchown path uid gid r) = 3"
| "arity (Getpwnam name slots db e) = 8"
| "arity (Getpwuid uid slots db e) = 8"
| "arity (Getgrnam name slots db e) = 5"
| "arity (Getgrgid gid slots db e) = 5"
| "arity (Getgrouplist name list groups e) = 2"
| "arity (Opendir path dir r) = 2"
| "arity (Readdir dir name r) = 2"
| "arity (Closedir dir r) = 1"

primrec checks_argc :: "invocation \<Rightarrow> bool" where
  "checks_argc (Time r) = False"
| "checks_argc (Clock_gettime clk_id_name slots r) = True"
| "checks_argc (Clock_getres clk_id_name slots r) = True"
| "checks_argc (Localtime t slots r) = True"
| "checks_argc (Gmtime t slots r) = True"
| "checks_argc (Mktime slots r) = True"
| "checks_argc (Strftime format slots s r) = True"
| "checks_argc (Times slots r) = True"
| "checks_argc (Sysinfo slots r) = True"
| "checks_argc (Uname slots r) = True"
| "checks_argc (Setenv name val overwrite r) = True"
| "checks_argc (Unsetenv name r) = True"
| "checks_argc (Openlog ident option_name facility_name rm ro) = True"
| "checks_argc (Syslog priority_name message r) = True"
| "checks_argc (Umask msk r) = True"
| "checks_argc (Stat path slots r) = True"
| "checks_argc (Lstat path slots r) = True"
| "checks_argc (Readlink path name r) = True"
| "checks_argc (Link oldpath newpath r) = True"
| "checks_argc (Symlink oldpath newpath r) = True"
| "checks_argc (Unlink path r) = True"
| "checks_argc (Mkdir path md r) = True"
| "checks_argc (Rmdir path r) = True"
| "checks_argc (Chmod path md r) = True"
| "checks_argc (Chown path uid gid r) = True"
| "checks_argc (Lchown path uid gid r) = True"
| "checks_argc (Getpwnam name slots db e) = True"
| "checks_argc (Getpwuid uid slots db e) = True"
| "checks_argc (Getgrnam name slots db e) = True"
| "checks_argc (Getgrgid gid slots db e) = True"
| "checks_argc (Getgrouplist name list groups e) = False"
| "checks_argc (Opendir path dir r) = True"
| "checks_argc (Readdir dir name r) = True"
| "checks_argc (Closedir dir r) = True"

definition ret0 :: "(invocation) \<Rightarrow> int \<times> world \<Rightarrow> fault + (int \<times> invocation \<times> world)" where
  "ret0 c x = Inr (fst x, c, snd x)"

definition ret1 :: "('a \<Rightarrow> invocation) \<Rightarrow> int \<times> 'a \<times> world \<Rightarrow> fault + (int \<times> invocation \<times> world)" where
  "ret1 k x = Inr (fst x, k (fst (snd x)), snd (snd x))"

definition ret2 ::
  "('a \<Rightarrow> invocation) \<Rightarrow> fault + (int \<times> 'a \<times> world) \<Rightarrow> fault + (int \<times> invocation \<times> world)" where
  "ret2 k x = (case x of Inl f \<Rightarrow> Inl f | Inr y \<Rightarrow> ret1 k y)"

primrec invoke :: "int \<Rightarrow> invocation \<Rightarrow> world \<Rightarrow> fault + (int \<times> invocation \<times> world)" where
  "invoke argc (Time r) w = ret0 (Time r) (posix_time argc r w)"
| "invoke argc (Clock_gettime clk_id_name slots r) w =
     ret1 (\<lambda>x. Clock_gettime clk_id_name x r) (posix_clock_gettime argc clk_id_name slots r w)"
| "invoke argc (Clock_getres clk_id_name slots r) w =
     ret1 (\<lambda>x. Clock_getres clk_id_name x r) (posix_clock_getres argc clk_id_name slots r w)"
| "invoke argc (Localtime t slots r) w = ret1 (\<lambda>x. Localtime t x r) (posix_localtime argc t slots r w)"
| "invoke argc (Gmtime t slots r) w = ret1 (\<lambda>x. Gmtime t x r) (posix_gmtime argc t slots r w)"
| "invoke argc (Mktime slots r) w = ret0 (Mktime slots r) (posix_mktime argc slots r w)"
| "invoke argc (Strftime format slots s r) w =
     ret2 (\<lambda>x. Strftime format slots x r) (posix_strftime argc format slots s r w)"
| "invoke argc (Times slots r) w = ret1 (\<lambda>x. Times x r) (posix_times argc slots r w)"
| "invoke argc (Sysinfo slots r) w = ret1 (\<lambda>x. Sysinfo x r) (posix_sysinfo argc slots r w)"
| "invoke argc (Uname slots r) w = ret2 (\<lambda>x. Uname x r) (posix_uname argc slots r w)"
| "invoke argc (Setenv name val overwrite r) w =
     ret0 (Setenv name val overwrite r) (posix_setenv argc name val overwrite r w)"
| "invoke argc (Unsetenv name r) w = ret0 (Unsetenv name r) (posix_unsetenv argc name r w)"
| "invoke argc (Openlog ident option_name facility_name rm ro) w =
     ret0 (Openlog ident option_name facility_name rm ro)
       (posix_openlog argc ident option_name facility_name rm ro w)"
| "invoke argc (Syslog priority_name message r) w =
     ret0 (Syslog priority_name message r) (posix_syslog argc priority_name message r w)"
| "invoke argc (Umask msk r) w = ret0 (Umask msk r) (posix_umask argc msk r w)"
| "invoke argc (Stat path slots r) w = ret1 (\<lambda>x. Stat path x r) (posix_stat argc path slots r w)"
| "invoke argc (Lstat path slots r) w = ret1 (\<lambda>x. Lstat path x r) (posix_lstat argc path slots r w)"
| "invoke argc (Readlink path name r) w = ret2 (\<lambda>x. Readlink path x r) (posix_readlink argc path name r w)"
| "invoke argc (Link oldpath newpath r) w = ret0 (Link oldpath newpath r) (posix_link argc oldpath newpath r w)"
| "invoke argc (Symlink oldpath newpath r) w =
     ret0 (Symlink oldpath newpath r) (posix_symlink argc oldpath newpath r w)"
| "invoke argc (Unlink path r) w = ret0 (Unlink path r) (posix_unlink argc path r w)"
| "invoke argc (Mkdir path md r) w = ret0 (Mkdir path md r) (posix_mkdir argc path md r w)"
| "invoke argc (Rmdir path r) w = ret0 (Rmdir path r) (posix_rmdir argc path r w)"
| "invoke argc (Chmod path md r) w = ret0 (Chmod path md r) (posix_chmod argc path md r w)"
| "invoke argc (Chown path uid gid r) w = ret0 (Chown path uid gid r) (posix_chown argc path uid gid r w)"
| "invoke argc (Lchown path uid gid r) w = ret0 (Lchown path uid gid r) (posix_lchown argc path uid gid r w)"
| "invoke argc (Getpwnam name slots db e) w =
     ret2 (\<lambda>x. Getpwnam name x db e) (posix_getpwnam argc name slots db e w)"
| "invoke argc (Getpwuid uid slots db e) w =
     ret2 (\<lambda>x. Getpwuid uid x db e) (posix_getpwuid argc uid slots db e w)"
| "invoke argc (Getgrnam name slots db e) w =
     ret2 (\<lambda>x. Getgrnam name x db e) (posix_getgrnam argc name slots db e w)"
| "invoke argc (Getgrgid gid slots db e) w =
     ret2 (\<lambda>x. Getgrgid gid x db e) (posix_getgrgid argc gid slots db e w)"
| "invoke argc (Getgrouplist name list groups e) w =
     ret2 (\<lambda>x. Getgrouplist name x groups e) (posix_getgrouplist argc name list groups e w)"
| "invoke argc (Opendir path dir r) w = ret1 (\<lambda>x. Opendir path x r) (posix_opendir argc path dir r w)"
| "invoke argc (Readdir dir name r) w = ret2 (\<lambda>x. Readdir dir x r) (posix_readdir argc dir name r w)"
| "invoke argc (Closedir dir r) w = ret0 (Closedir dir r) (posix_closedir argc dir r w)"

fun run :: "(int \<times> invocation) list \<Rightarrow> world \<Rightarrow> fault + world" where
  "run [] w = Inr w"
| "run ((argc, c) # cs) w =
     (case invoke argc c w of Inl f \<Rightarrow> Inl f | Inr (st, c', w') \<Rightarrow> run cs w')"

definition opens_fresh :: "invocation \<Rightarrow> world \<Rightarrow> bool" where
  "opens_fresh c w = (case c of Opendir path dir r \<Rightarrow> fst r \<notin> tracked w | _ \<Rightarrow> True)"

fun fresh_handles :: "(int \<times> invocation) list \<Rightarrow> world \<Rightarrow> bool" where
  "fresh_handles [] w = True"
| "fresh_handles ((argc, c) # cs) w =
     (opens_fresh c w \<and>
      (case invoke argc c w of Inl f \<Rightarrow> True | Inr (st, c', w') \<Rightarrow> fresh_handles cs w'))"

section \<open>Properties of the file mode helper and the file-type predicates\<close>

subsection \<open>Closed forms of the loops\<close>

lemma m_str_small: "n < 10 \<Longrightarrow> m_str n = [char_of (48 + n)]"
  by (subst m_str.simps) simp

lemma octal_eq:
  "octal m = [char_of (48 + m div 8 div 8 div 8 mod 8), char_of (48 + m div 8 div 8 mod 8),
              char_of (48 + m div 8 mod 8), char_of (48 + m mod 8)]"
proof -
  have s: "\<And>k::nat. m_str (k mod 8) = [char_of (48 + k mod 8)]"
    by (rule m_str_small) (simp add: less_le_trans [OF mod_less_divisor])
  show ?thesis
    unfolding octal_def
    apply (subst octal_loop.simps, simp add: s m_set_extract_def)
    apply (subst octal_loop.simps, simp add: s m_set_extract_def)
    apply (subst octal_loop.simps, simp add: s m_set_extract_def)
    apply (subst octal_loop.simps, simp add: s m_set_extract_def)
    apply (subst octal_loop.simps, simp)
    done
qed

lemma zbit4_eq:
  "zbit n 4 = [0, of_nat (n div 16777216 mod 256), of_nat (n div 65536 mod 256),
               of_nat (n div 256 mod 256), of_nat (n mod 256)]"
proof -
  have four: "(4::nat) = Suc (Suc (Suc (Suc 0)))"
    by simp
  show ?thesis
    unfolding four by (simp add: zbit_def m_set_extract_def flip: div_mult2_eq)
qed

lemma mode_loop_acc: "mode_loop s l j n = n + mode_loop s l j 0"
proof (induction j arbitrary: n)
  case 0
  show ?case by simp
next
  case (Suc j)
  show ?case
    by (simp, subst Suc.IH, subst (2) Suc.IH, simp)
qed

lemma mode_loop_snoc:
  "j \<le> length s \<Longrightarrow> mode_loop (s @ [c]) (Suc (length s)) j 0 = 8 * mode_loop s (length s) j 0"
proof (induction j)
  case 0
  show ?case by simp
next
  case (Suc j)
  then have j: "j < length s" by simp
  have e: "m_extract (s @ [c]) (Suc j) = m_extract s (Suc j)"
    using j by (simp add: m_extract_def nth_append)
  have "length s - j = Suc (length s - Suc j)"
    using j by simp
  then have p: "(8::nat) ^ (length s - j) = 8 * 8 ^ (length s - Suc j)"
    by (simp only: power_Suc)
  show ?case
    using Suc j
    by (simp add: e p, subst mode_loop_acc, subst (2) mode_loop_acc, simp)
qed

lemma mode_snoc: "mode (s @ [c]) = 8 * mode s + m_num [c]"
proof -
  have "mode (s @ [c]) = mode_loop (s @ [c]) (Suc (length s)) (length s) (m_num [c])"
    by (simp add: mode_def m_extract_def)
  also have "\<dots> = m_num [c] + 8 * mode_loop s (length s) (length s) 0"
    by (subst mode_loop_acc) (simp add: mode_loop_snoc)
  finally show ?thesis by (simp add: mode_def)
qed

text \<open>The loop of \<open>mode\<close> is positional base-8 evaluation (Horner form).\<close>

lemma mode_horner: "mode s = foldl (\<lambda>a c. 8 * a + m_num [c]) 0 s"
proof (induction s rule: rev_induct)
  case Nil
  show ?case by (simp add: mode_def)
next
  case (snoc c s)
  then show ?case by (simp add: mode_snoc)
qed

lemma m_num_digit: "m_num [c] = (if is_digit c then of_char c - 48 else 0)"
  by (simp add: m_num_def)

lemma char_of_48: "char_of (48::nat) = CHR ''0''"
proof -
  have "char_of (of_char (CHR ''0'') :: nat) = CHR ''0''"
    by (rule char_of_char)
  then show ?thesis by simp
qed

lemma octal_digit_char:
  "c \<in> set ''01234567'' \<Longrightarrow> m_num [c] < 8 \<and> char_of (48 + m_num [c]) = c"
  by (auto simp: m_num_digit is_digit_def)

lemma m_num_char_of: "d < 8 \<Longrightarrow> m_num [char_of (48 + d)] = d"
  by (simp add: m_num_digit is_digit_def)

lemma octal_digits4:
  fixes A B C D :: nat
  assumes "A < 8" "B < 8" "C < 8" "D < 8"
  shows "octal (8 * (8 * (8 * A + B) + C) + D) =
           [char_of (48 + A), char_of (48 + B), char_of (48 + C), char_of (48 + D)]"
proof -
  define x1 where "x1 = 8 * A + B"
  define x2 where "x2 = 8 * x1 + C"
  define n where "n = 8 * x2 + D"
  have d: "n mod 8 = D" "n div 8 = x2"
    using assms(4) by (simp_all add: n_def)
  have e: "x2 mod 8 = C" "x2 div 8 = x1"
    using assms(3) by (simp_all add: x2_def)
  have f: "x1 mod 8 = B" "x1 div 8 = A"
    using assms(2) by (simp_all add: x1_def)
  have "octal n = [char_of (48 + A), char_of (48 + B), char_of (48 + C), char_of (48 + D)]"
    using assms(1) by (simp add: octal_eq d e f)
  then show ?thesis
    by (simp only: n_def x2_def x1_def)
qed

lemma replicate_small: "replicate 3 c = [c, c, c]" "replicate 2 c = [c, c]"
  by (simp_all add: numeral_3_eq_3 numeral_2_eq_2)

lemma octal_mode_padded:
  assumes "set s \<subseteq> set ''01234567''" "1 \<le> length s" "length s \<le> 4"
  shows "octal (mode s) = replicate (4 - length s) (CHR ''0'') @ s"
proof -
  consider a where "s = [a]" | a b where "s = [a, b]" | a b c where "s = [a, b, c]"
    | a b c d where "s = [a, b, c, d]"
    using assms(2,3)
    by (cases s; cases "tl s"; cases "tl (tl s)"; cases "tl (tl (tl s))"; cases "tl (tl (tl (tl s)))") auto
  then show ?thesis
  proof cases
    case 1
    with assms(1) have a: "m_num [a] < 8" "char_of (48 + m_num [a]) = a"
      using octal_digit_char by simp_all
    show ?thesis
      using octal_digits4 [of 0 0 0 "m_num [a]"] a
      by (simp add: 1 mode_horner replicate_small char_of_48)
  next
    case 2
    with assms(1) have a: "m_num [a] < 8" "char_of (48 + m_num [a]) = a"
      "m_num [b] < 8" "char_of (48 + m_num [b]) = b"
      using octal_digit_char by simp_all
    show ?thesis
      using octal_digits4 [of 0 0 "m_num [a]" "m_num [b]"] a
      by (simp add: 2 mode_horner replicate_small char_of_48)
  next
    case 3
    with assms(1) have a: "m_num [a] < 8" "char_of (48 + m_num [a]) = a"
      "m_num [b] < 8" "char_of (48 + m_num [b]) = b"
      "m_num [c] < 8" "char_of (48 + m_num [c]) = c"
      using octal_digit_char by simp_all
    show ?thesis
      using octal_digits4 [of 0 "m_num [a]" "m_num [b]" "m_num [c]"] a
      by (simp add: 3 mode_horner char_of_48)
  next
    case 4
    with assms(1) have a: "m_num [a] < 8" "char_of (48 + m_num [a]) = a"
      "m_num [b] < 8" "char_of (48 + m_num [b]) = b"
      "m_num [c] < 8" "char_of (48 + m_num [c]) = c"
      "m_num [d] < 8" "char_of (48 + m_num [d]) = d"
      using octal_digit_char by simp_all
    show ?thesis
      using octal_digits4 [of "m_num [a]" "m_num [b]" "m_num [c]" "m_num [d]"] a
      by (simp add: 4 mode_horner)
  qed
qed

lemma mode_octal_id:
  assumes "n < 4096"
  shows "mode (octal n) = n"
proof -
  have "n div 8 div 8 div 8 < 8"
    using assms by (simp add: div_mult2_eq [symmetric] less_mult_imp_div_less)
  then have "8 * (8 * (8 * (n div 8 div 8 div 8 mod 8) + n div 8 div 8 mod 8) + n div 8 mod 8) + n mod 8 = n"
    by simp
  then show ?thesis
    by (simp add: octal_eq mode_horner m_num_char_of)
qed

subsection \<open>Round trips between \<open>mode\<close> and \<open>octal\<close>\<close>

lemma m_num_leading_zeros: "m_num (replicate k (CHR ''0'') @ s) = m_num s"
  by (induction k) (simp_all add: m_num_def is_digit_def)

text \<open>
  Claim C2, as amended. \<open>octal\<close> always produces four digits, so for a valid octal string
  \<open>s\<close> of one to four digits \<open>octal (mode s)\<close> is \<open>s\<close> padded on the left with zeros to four
  digits: it is \<open>s\<close> itself exactly when \<open>s\<close> has four digits, and it is always the same M
  number as \<open>s\<close>. For every integer \<open>n\<close> from 0 to 511, \<open>mode (octal n) = n\<close>.
\<close>

theorem octal_mode_roundtrip:
  "(set s \<subseteq> set ''01234567'' \<and> 1 \<le> length s \<and> length s \<le> 4 \<longrightarrow>
      octal (mode s) = replicate (4 - length s) (CHR ''0'') @ s \<and>
      (octal (mode s) = s \<longleftrightarrow> length s = 4) \<and>
      m_num (octal (mode s)) = m_num s)
   \<and> (n \<le> 511 \<longrightarrow> mode (octal n) = n)"
proof -
  have a: "octal (mode s) = replicate (4 - length s) (CHR ''0'') @ s \<and>
      (octal (mode s) = s \<longleftrightarrow> length s = 4) \<and> m_num (octal (mode s)) = m_num s"
    if v: "set s \<subseteq> set ''01234567''" "1 \<le> length s" "length s \<le> 4"
  proof -
    have p: "octal (mode s) = replicate (4 - length s) (CHR ''0'') @ s"
      using v by (rule octal_mode_padded)
    have "length (octal (mode s)) = 4"
      using v(3) by (simp add: p)
    then have "octal (mode s) = s \<Longrightarrow> length s = 4"
      by simp
    moreover have "length s = 4 \<Longrightarrow> octal (mode s) = s"
      by (simp add: p)
    ultimately show ?thesis
      using p by (auto simp: m_num_leading_zeros)
  qed
  have b: "n \<le> 511 \<longrightarrow> mode (octal n) = n"
    by (simp add: mode_octal_id)
  from a b show ?thesis by blast
qed

text \<open>
  Claim C2 as first stated (\<open>octal (mode s) = s\<close> for every valid string of one to four
  digits) fails on every string shorter than four digits, for instance on \<open>''644''\<close>.
\<close>

theorem octal_mode_roundtrip_counterexample:
  "set ''644'' \<subseteq> set ''01234567'' \<and> 1 \<le> length ''644'' \<and> length ''644'' \<le> 4 \<and>
   octal (mode ''644'') = ''0644'' \<and> octal (mode ''644'') \<noteq> ''644''"
  by (simp add: octal_mode_padded)

theorem octal_mode_roundtrip_witness:
  "octal (mode ''0644'') = ''0644'' \<and> octal (mode ''7'') = ''0007'' \<and>
   m_num (octal (mode ''7'')) = 7 \<and> mode (octal 420) = 420"
  using octal_mode_roundtrip [of "''0644''" 420] octal_mode_roundtrip [of "''7''" 420]
  by (simp add: replicate_small m_num_def is_digit_def)

subsection \<open>The file-type predicates\<close>

lemma flag_modes:
  "mode (canonic ''0100000'') = 32768" "mode (canonic ''0040000'') = 16384"
  "mode (canonic ''0020000'') = 8192" "mode (canonic ''0060000'') = 24576"
  "mode (canonic ''0010000'') = 4096" "mode (canonic ''0120000'') = 40960"
  "mode (canonic ''0140000'') = 49152"
  by (simp_all add: canonic_def mode_horner m_num_digit is_digit_def)

text \<open>
  Claim C1 says that on a mode value of a single canonical file type exactly one of the seven
  predicates holds. The routines do not have this property: \<open>isflag\<close> tests that the bits of
  the flag are contained in the mode, and the patterns of a block device (octal 060000), a symbolic
  link (120000) and a socket (140000) contain the patterns of other types. The theorem evaluates
  the seven predicates, in the order \<open>isreg\<close>, \<open>isdir\<close>, \<open>ischr\<close>, \<open>isblk\<close>, \<open>isfifo\<close>,
  \<open>islnk\<close>, \<open>issock\<close>, on these three mode values: three predicates hold on each.
\<close>

theorem file_type_predicates_overlap:
  "(isreg 24576, isdir 24576, ischr 24576, isblk 24576, isfifo 24576, islnk 24576, issock 24576)
     = (False, True, True, True, False, False, False)
   \<and> (isreg 40960, isdir 40960, ischr 40960, isblk 40960, isfifo 40960, islnk 40960, issock 40960)
     = (True, False, True, False, False, True, False)
   \<and> (isreg 49152, isdir 49152, ischr 49152, isblk 49152, isfifo 49152, islnk 49152, issock 49152)
     = (True, True, False, False, False, False, True)"
  by (simp add: isreg_def isdir_def ischr_def isblk_def isfifo_def islnk_def issock_def isflag_def
      flag_modes zbit4_eq zbitand_def)

text \<open>
  On the modes of the other four types (here with permission bits: a regular file 0100644, a
  directory 040755, a character device 020620 and a FIFO 010644) one predicate holds.
\<close>

lemma file_type_predicates_single:
  "(isreg 33188, isdir 33188, ischr 33188, isblk 33188, isfifo 33188, islnk 33188, issock 33188)
     = (True, False, False, False, False, False, False)"
  "(isreg 16877, isdir 16877, ischr 16877, isblk 16877, isfifo 16877, islnk 16877, issock 16877)
     = (False, True, False, False, False, False, False)"
  "(isreg 8592, isdir 8592, ischr 8592, isblk 8592, isfifo 8592, islnk 8592, issock 8592)
     = (False, False, True, False, False, False, False)"
  "(isreg 4516, isdir 4516, ischr 4516, isblk 4516, isfifo 4516, islnk 4516, issock 4516)
     = (False, False, False, False, True, False, False)"
  by (simp_all add: isreg_def isdir_def ischr_def isblk_def isfifo_def islnk_def issock_def isflag_def
      flag_modes zbit4_eq zbitand_def)

section \<open>Properties of the C extension\<close>

subsection \<open>The string copies\<close>

text \<open>
  With room in the buffer, \<open>strncopy\<close> returns 0 exactly when the source has at most
  \<open>n - 2\<close> characters: the loop stops at \<open>n = 1\<close>, before it has looked for the terminator
  of a source of \<open>n - 1\<close> characters.
\<close>

lemma poke_ok: "0 \<le> i \<Longrightarrow> i < int (length buf) \<Longrightarrow> poke buf i c = Inr (buf[nat i := c])"
  by (simp add: poke_def)

lemma strncopy_status:
  assumes "NUL \<notin> set s" and "0 \<le> p" and "1 \<le> n" and "p + n \<le> int (length buf)"
  shows "\<exists>buf'. strncopy buf p s n = Inr (if int (length s) + 2 \<le> n then 0 else ERANGE, buf') \<and>
           length buf' = length buf"
  using assms
proof (induction s arbitrary: buf p n)
  case Nil
  then have "poke buf p NUL = Inr (buf[nat p := NUL])"
    by (intro poke_ok) simp_all
  then show ?case
    by (subst strncopy.simps) (simp add: deref_def)
next
  case (Cons c s)
  then have c: "c \<noteq> NUL" by auto
  have pk: "\<And>x. poke buf p x = Inr (buf[nat p := x])"
    using Cons.prems by (intro poke_ok) simp_all
  show ?case
  proof (cases "n > 1")
    case True
    have "\<exists>buf'. strncopy (buf[nat p := c]) (p + 1) s (n - 1) =
        Inr (if int (length s) + 2 \<le> n - 1 then 0 else ERANGE, buf') \<and>
        length buf' = length (buf[nat p := c])"
      using Cons.prems True by (intro Cons.IH) simp_all
    then obtain buf' where b: "strncopy (buf[nat p := c]) (p + 1) s (n - 1) =
        Inr (if int (length s) + 2 \<le> n - 1 then 0 else ERANGE, buf')" "length buf' = length buf"
      by auto
    have e: "(int (length s) + 2 \<le> n - 1) = (int (length (c # s)) + 2 \<le> n)"
      by auto
    have "strncopy buf p (c # s) n = strncopy (buf[nat p := c]) (p + 1) s (n - 1)"
      using True c by (subst strncopy.simps) (simp add: deref_def pk)
    then show ?thesis
      using b unfolding e by simp
  next
    case False
    then show ?thesis
      by (subst strncopy.simps) (simp add: pk)
  qed
qed

text \<open>
  Claim C6 says that the copy succeeds whenever the source string with its terminator fits
  into the capacity \<open>n\<close>, and fails only when it exceeds it. The code is off by one: a source
  of three characters and a capacity of four (the string and its terminator fit exactly) is
  copied completely, terminator included, and yet the result is \<^verbatim>\<open>ERANGE\<close>; with a capacity
  of five the same copy returns 0. \<open>strpncopy\<close> does the same.
\<close>

theorem strncopy_exact_fit_fails:
  "strncopy (replicate 4 (CHR ''x'')) 0 ''abc'' 4 = Inr (ERANGE, ''abc'' @ [NUL])
   \<and> strpncopy (replicate 4 (CHR ''x'')) 0 ''abc'' 4 = Inr (None, 1, ''abc'' @ [NUL])
   \<and> strncopy (replicate 5 (CHR ''x'')) 0 ''abc'' 5 = Inr (0, ''abc'' @ [NUL, CHR ''x''])
   \<and> ERANGE \<noteq> 0"
  by (simp add: strncopy.simps strpncopy.simps poke_def deref_def NUL_def numeral_eq_Suc ERANGE_def)

subsection \<open>\<^verbatim>\<open>posix_readlink\<close>\<close>

text \<open>When the native call succeeds, the terminator is stored inside a buffer of 1024 bytes.\<close>

lemma pokes_ok:
  "0 \<le> i \<Longrightarrow> i + int (length cs) \<le> int (length buf) \<Longrightarrow>
   \<exists>buf'. pokes buf i cs = Inr buf' \<and> length buf' = length buf"
proof (induction cs arbitrary: buf i)
  case Nil
  show ?case by simp
next
  case (Cons c cs)
  have "\<exists>buf'. pokes (buf[nat i := c]) (i + 1) cs = Inr buf' \<and> length buf' = length (buf[nat i := c])"
    using Cons.prems by (intro Cons.IH) simp_all
  then show ?case
    using Cons.prems by (simp add: poke_def)
qed

lemma posix_readlink_success_in_bounds:
  assumes "length name = 1024"
  shows "\<exists>name' w'. posix_readlink 2 path name (Some target, e) w = Inr (errno w', name', w')"
proof -
  have "\<exists>buf'. pokes name 0 (take 1023 target) = Inr buf' \<and> length buf' = length name"
    using assms by (intro pokes_ok) simp_all
  then obtain buf' where b: "pokes name 0 (take 1023 target) = Inr buf'" "length buf' = 1024"
    using assms by auto
  have "poke buf' (int (min (length target) 1023)) NUL = Inr (buf'[min (length target) 1023 := NUL])"
    using b(2) by (simp add: poke_def)
  then show ?thesis
    using b by (simp add: posix_readlink_def bnd_def Let_def)
qed

text \<open>
  Claim C4 says that the terminating \<^verbatim>\<open>NUL\<close> is stored inside the caller's buffer for
  every outcome of the native \<^verbatim>\<open>readlink\<close>. When the native call fails it returns -1,
  and the code stores the terminator at \<^verbatim>\<open>name[-1]\<close>, one byte before the buffer: the
  call below, on a path that is no symbolic link, ends in that fault.
\<close>

theorem readlink_failure_stores_before_buffer:
  "posix_readlink 2 ''/etc/passwd'' (replicate 1024 NUL) (None, Some EINVAL) init_world =
     Inl (OutOfBounds (- 1))"
  by (simp add: posix_readlink_def bnd_def poke_def Let_def)

subsection \<open>The arity check\<close>

text \<open>
  Claim C3, as amended. Every exposed operation other than \<^verbatim>\<open>posix_time\<close> and
  \<^verbatim>\<open>posix_getgrouplist\<close> (these two are the operations of which \<open>checks_argc\<close>
  does not hold), called with an argument count different from its arity, returns
  \<^verbatim>\<open>ENODATA\<close> and leaves everything as it was: no native call is made, and
  \<^verbatim>\<open>errno\<close>, the handle table and the caller's output slots are unchanged.
  \<^verbatim>\<open>posix_time\<close>, which declares \<^verbatim>\<open>argc\<close> unused, calls the native
  \<^verbatim>\<open>time\<close> and returns its value whatever \<^verbatim>\<open>argc\<close> is.
\<close>

theorem arity_mismatch_rejected:
  "(checks_argc c \<and> argc \<noteq> arity c \<longrightarrow> invoke argc c w = Inr (ENODATA, c, w))
   \<and> (\<not> checks_argc c \<longleftrightarrow>
        (\<exists>r. c = Time r) \<or> (\<exists>name list groups e. c = Getgrouplist name list groups e))
   \<and> invoke argc (Time r) w = Inr (fst r, Time r, native N_time (snd r) w)"
proof -
  have "checks_argc c \<Longrightarrow> argc \<noteq> arity c \<Longrightarrow> invoke argc c w = Inr (ENODATA, c, w)"
    by (cases c)
      (simp_all add: ret0_def ret1_def ret2_def
        posix_clock_gettime_def posix_clock_getres_def u_posix_clock_get_def
        posix_localtime_def posix_gmtime_def u_posix_time_def posix_mktime_def posix_strftime_def
        posix_times_def posix_sysinfo_def posix_uname_def posix_setenv_def posix_unsetenv_def
        posix_openlog_def posix_syslog_def posix_umask_def posix_stat_def posix_lstat_def u_posix_stat_def
        posix_readlink_def posix_link_def posix_symlink_def u_posix_link_def posix_unlink_def
        posix_mkdir_def posix_rmdir_def posix_chmod_def posix_chown_def posix_lchown_def u_posix_chown_def
        posix_getpwnam_def posix_getpwuid_def u_posix_getpw_def posix_getgrnam_def posix_getgrgid_def
        u_posix_getgr_def posix_opendir_def posix_readdir_def posix_closedir_def)
  moreover have "\<not> checks_argc c \<longleftrightarrow>
      (\<exists>r. c = Time r) \<or> (\<exists>name list groups e. c = Getgrouplist name list groups e)"
    by (cases c) simp_all
  moreover have "invoke argc (Time r) w = Inr (fst r, Time r, native N_time (snd r) w)"
    by (simp add: ret0_def posix_time_def)
  ultimately show ?thesis by blast
qed

text \<open>
  Claim C3 as first stated covers every operation of fixed arity. \<^verbatim>\<open>posix_time\<close> has arity
  0; called with one argument it makes the native call and returns the time, not
  \<^verbatim>\<open>ENODATA\<close>.
\<close>

theorem arity_mismatch_counterexample:
  "invoke 1 (Time (1351000000, None)) init_world =
     Inr (1351000000, Time (1351000000, None), init_world\<lparr>calls := [N_time]\<rparr>)
   \<and> (1351000000 :: int) \<noteq> ENODATA"
  by (simp add: ret0_def posix_time_def native_def init_world_def ENODATA_def)

theorem arity_mismatch_rejected_witness:
  "invoke 2 (Setenv ''HOME'' ''/'' 1 (0, None)) init_world =
     Inr (ENODATA, Setenv ''HOME'' ''/'' 1 (0, None), init_world)
   \<and> invoke 0 (Readlink ''/tmp/l'' ''xxxx'' (Some ''/etc'', None)) init_world =
     Inr (ENODATA, Readlink ''/tmp/l'' ''xxxx'' (Some ''/etc'', None), init_world)
   \<and> invoke 3 (Time (1351000000, None)) init_world =
     Inr (1351000000, Time (1351000000, None), native N_time None init_world)"
  using arity_mismatch_rejected [of "Setenv ''HOME'' ''/'' 1 (0, None)" 2 init_world "(1351000000, None)"]
    arity_mismatch_rejected [of "Readlink ''/tmp/l'' ''xxxx'' (Some ''/etc'', None)" 0 init_world
      "(1351000000, None)"]
    arity_mismatch_rejected [of "Time (1351000000, None)" 3 init_world "(1351000000, None)"]
  by simp

text \<open>
  \<^verbatim>\<open>posix_getgrouplist\<close> has no \<^verbatim>\<open>check_argc\<close> either, although its \<^verbatim>\<open>argc\<close> is
  not declared unused and every other operation that takes arguments has the test: with any
  argument count it clears \<^verbatim>\<open>errno\<close>, empties the list and walks the group
  database. The statement above makes no promise about it.
\<close>

lemma getgrouplist_ignores_argc:
  "posix_getgrouplist argc name ''xx'' [] None init_world =
     Inr (0, NUL # ''x'', init_world\<lparr>calls := [N_getgrent, N_endgrent]\<rparr>)"
  by (simp add: posix_getgrouplist_def bnd_def poke_def Let_def native_def clear_errno_def init_world_def)

subsection \<open>Output slots when the native call fails\<close>

text \<open>
  Claim C5 says that an operation whose native call fails leaves every output field zero or
  empty, never unwritten. \<^verbatim>\<open>_posix_stat\<close> clears its local \<^verbatim>\<open>struct stat\<close> and
  then copies it to the output slots only when the native call returns 0, so after a failed
  \<^verbatim>\<open>stat\<close> the slots hold what they held before the call: here the value 7 in every
  field. \<^verbatim>\<open>posix_lstat\<close> and \<^verbatim>\<open>posix_sysinfo\<close> do the same, and
  \<^verbatim>\<open>posix_opendir\<close> leaves \<^verbatim>\<open>*dir\<close> unwritten; \<^verbatim>\<open>_posix_time\<close> and
  \<^verbatim>\<open>posix_times\<close> do store zeros.
\<close>

theorem stat_failure_leaves_outputs:
  "posix_stat 14 ''/nonexistent''
     \<lparr>st_dev = 7, st_ino = 7, st_mode = 7, st_nlink = 7, st_uid = 7, st_gid = 7, st_rdev = 7,
      st_size = 7, st_blksize = 7, st_blocks = 7, st_atime = 7, st_mtime = 7, st_ctime = 7\<rparr>
     (None, Some ENOENT) init_world =
   (ENOENT,
    \<lparr>st_dev = 7, st_ino = 7, st_mode = 7, st_nlink = 7, st_uid = 7, st_gid = 7, st_rdev = 7,
     st_size = 7, st_blksize = 7, st_blocks = 7, st_atime = 7, st_mtime = 7, st_ctime = 7\<rparr>,
    init_world\<lparr>calls := [N_stat ''/nonexistent''], errno := ENOENT\<rparr>)"
  by (simp add: posix_stat_def u_posix_stat_def Let_def native_def clear_errno_def init_world_def)

lemma failure_outputs_general:
  "fst (snd (posix_stat 14 path slots (None, e) w)) = slots"
  "fst (snd (posix_lstat 14 path slots (None, e) w)) = slots"
  "fst (snd (posix_sysinfo 14 islots (None, e) w)) = islots"
  "fst (snd (posix_opendir 2 path dir (0, e) w)) = dir"
  by (simp_all add: posix_stat_def posix_lstat_def u_posix_stat_def posix_sysinfo_def posix_opendir_def Let_def)

lemma failure_outputs_zeroed:
  "fst (snd (posix_localtime 10 t tslots (None, e) w)) =
     \<lparr>tm_sec = 0, tm_min = 0, tm_hour = 0, tm_mday = 0, tm_mon = 0, tm_year = 0, tm_wday = 0,
      tm_yday = 0, tm_isdst = 0\<rparr>"
  "fst (snd (posix_times 4 mslots (None, e) w)) =
     \<lparr>tms_utime = 0, tms_stime = 0, tms_cutime = 0, tms_cstime = 0\<rparr>"
  by (simp_all add: posix_localtime_def u_posix_time_def posix_times_def Let_def)

subsection \<open>User and group lookups\<close>

lemma narrow_id: "uint x < 2 ^ 32 \<Longrightarrow> uint (ucast (x :: 'a::len word) :: 32 word) = uint x"
  by (simp add: unsigned_ucast_eq take_bit_int_eq_self)

lemma getpw_absent:
  "\<forall>b\<in>set db. pw_name b \<noteq> name \<Longrightarrow> getpwnam db name = None"
  "uint uid < 2 ^ 32 \<Longrightarrow> \<forall>b\<in>set db. pw_uid b \<noteq> uint uid \<Longrightarrow> getpwuid db (ucast uid) = None"
  using narrow_id [of uid] by (simp_all add: getpwnam_def getpwuid_def find_None_iff)

lemma getgr_absent:
  "\<forall>g\<in>set gdb. gr_name g \<noteq> name \<Longrightarrow> getgrnam gdb name = None"
  "uint gid < 2 ^ 32 \<Longrightarrow> \<forall>g\<in>set gdb. gr_gid g \<noteq> uint gid \<Longrightarrow> getgrgid gdb (ucast gid) = None"
  using narrow_id [of gid] by (simp_all add: getgrnam_def getgrgid_def find_None_iff)

text \<open>The lookups by id see the low 32 bits of the id only.\<close>

lemma ucast_low_bits: "(ucast (x + 4294967296 :: 64 word) :: 32 word) = ucast x"
proof -
  have m: "(uint x + 4294967296) mod 18446744073709551616 mod 4294967296 =
      (uint x + 4294967296) mod 4294967296"
    by (rule mod_mod_cancel) simp
  have "uint (ucast (x + 4294967296 :: 64 word) :: 32 word) = uint (ucast x :: 32 word)"
    by (simp add: unsigned_ucast_eq uint_word_ariths take_bit_eq_mod m)
  then show ?thesis
    by (simp only: word_uint_eq_iff)
qed

lemma lookup_id_narrowed:
  "posix_getpwuid argc (uid + 4294967296) slots db e w = posix_getpwuid argc uid slots db e w"
  "posix_getgrgid argc (gid + 4294967296) gslots gdb e w = posix_getgrgid argc gid gslots gdb e w"
  by (simp_all add: posix_getpwuid_def posix_getgrgid_def u_posix_getpw_def u_posix_getgr_def
      ucast_low_bits)

text \<open>
  Claim C9, as amended. A lookup by name, or by a numeric id below \<open>2 ^ 32\<close> (an id that the
  native \<^verbatim>\<open>uid_t\<close> or \<^verbatim>\<open>gid_t\<close> can hold), for which the password or group database
  \<open>db\<close> has no entry returns \<^verbatim>\<open>ENOENT\<close>, which is not 0, whatever the native call did to
  \<^verbatim>\<open>errno\<close> (\<open>e\<close>), also when it stored nothing there (\<open>e = None\<close>). The numeric
  outputs are 0 and the string outputs are empty. The caller's buffers are not of capacity 0
  (the first byte of each is written before the lookup).
\<close>

theorem lookup_not_found_enoent:
  "ENOENT \<noteq> 0
   \<and> (pw_name slots \<noteq> [] \<and> pw_passwd slots \<noteq> [] \<and> pw_gecos slots \<noteq> [] \<and> pw_dir slots \<noteq> [] \<and>
      pw_shell slots \<noteq> [] \<longrightarrow>
      ((\<forall>b\<in>set db. pw_name b \<noteq> name) \<longrightarrow>
       posix_getpwnam 8 name slots db e w =
        Inr (ENOENT,
             \<lparr>pw_name = (pw_name slots)[0 := NUL], pw_passwd = (pw_passwd slots)[0 := NUL],
              pw_uid = 0, pw_gid = 0, pw_gecos = (pw_gecos slots)[0 := NUL],
              pw_dir = (pw_dir slots)[0 := NUL], pw_shell = (pw_shell slots)[0 := NUL]\<rparr>,
             (native (N_getpwnam name) e (clear_errno w))\<lparr>errno := ENOENT\<rparr>)) \<and>
      (uint uid < 2 ^ 32 \<and> (\<forall>b\<in>set db. pw_uid b \<noteq> uint uid) \<longrightarrow>
       posix_getpwuid 8 uid slots db e w =
        Inr (ENOENT,
             \<lparr>pw_name = (pw_name slots)[0 := NUL], pw_passwd = (pw_passwd slots)[0 := NUL],
              pw_uid = 0, pw_gid = 0, pw_gecos = (pw_gecos slots)[0 := NUL],
              pw_dir = (pw_dir slots)[0 := NUL], pw_shell = (pw_shell slots)[0 := NUL]\<rparr>,
             (native (N_getpwuid (ucast uid)) e (clear_errno w))\<lparr>errno := ENOENT\<rparr>)))
   \<and> (gr_name gslots \<noteq> [] \<and> gr_passwd gslots \<noteq> [] \<and> gr_mem gslots \<noteq> [] \<longrightarrow>
      ((\<forall>g\<in>set gdb. gr_name g \<noteq> name) \<longrightarrow>
       posix_getgrnam 5 name gslots gdb e w =
        Inr (ENOENT,
             \<lparr>gr_name = (gr_name gslots)[0 := NUL], gr_passwd = (gr_passwd gslots)[0 := NUL],
              gr_gid = 0, gr_mem = (gr_mem gslots)[0 := NUL]\<rparr>,
             (native (N_getgrnam name) e (clear_errno w))\<lparr>errno := ENOENT\<rparr>)) \<and>
      (uint gid < 2 ^ 32 \<and> (\<forall>g\<in>set gdb. gr_gid g \<noteq> uint gid) \<longrightarrow>
       posix_getgrgid 5 gid gslots gdb e w =
        Inr (ENOENT,
             \<lparr>gr_name = (gr_name gslots)[0 := NUL], gr_passwd = (gr_passwd gslots)[0 := NUL],
              gr_gid = 0, gr_mem = (gr_mem gslots)[0 := NUL]\<rparr>,
             (native (N_getgrgid (ucast gid)) e (clear_errno w))\<lparr>errno := ENOENT\<rparr>)))"
proof -
  have z: "ENOENT \<noteq> 0"
    by (simp add: ENOENT_def)
  have pn: "pw_name slots \<noteq> [] \<and> pw_passwd slots \<noteq> [] \<and> pw_gecos slots \<noteq> [] \<and> pw_dir slots \<noteq> [] \<and>
      pw_shell slots \<noteq> [] \<longrightarrow>
      ((\<forall>b\<in>set db. pw_name b \<noteq> name) \<longrightarrow>
       posix_getpwnam 8 name slots db e w =
        Inr (ENOENT,
             \<lparr>pw_name = (pw_name slots)[0 := NUL], pw_passwd = (pw_passwd slots)[0 := NUL],
              pw_uid = 0, pw_gid = 0, pw_gecos = (pw_gecos slots)[0 := NUL],
              pw_dir = (pw_dir slots)[0 := NUL], pw_shell = (pw_shell slots)[0 := NUL]\<rparr>,
             (native (N_getpwnam name) e (clear_errno w))\<lparr>errno := ENOENT\<rparr>)) \<and>
      (uint uid < 2 ^ 32 \<and> (\<forall>b\<in>set db. pw_uid b \<noteq> uint uid) \<longrightarrow>
       posix_getpwuid 8 uid slots db e w =
        Inr (ENOENT,
             \<lparr>pw_name = (pw_name slots)[0 := NUL], pw_passwd = (pw_passwd slots)[0 := NUL],
              pw_uid = 0, pw_gid = 0, pw_gecos = (pw_gecos slots)[0 := NUL],
              pw_dir = (pw_dir slots)[0 := NUL], pw_shell = (pw_shell slots)[0 := NUL]\<rparr>,
             (native (N_getpwuid (ucast uid)) e (clear_errno w))\<lparr>errno := ENOENT\<rparr>))"
    by (simp add: posix_getpwnam_def posix_getpwuid_def u_posix_getpw_def getpw_absent
        bnd_def poke_def Let_def)
  have gn: "gr_name gslots \<noteq> [] \<and> gr_passwd gslots \<noteq> [] \<and> gr_mem gslots \<noteq> [] \<longrightarrow>
      ((\<forall>g\<in>set gdb. gr_name g \<noteq> name) \<longrightarrow>
       posix_getgrnam 5 name gslots gdb e w =
        Inr (ENOENT,
             \<lparr>gr_name = (gr_name gslots)[0 := NUL], gr_passwd = (gr_passwd gslots)[0 := NUL],
              gr_gid = 0, gr_mem = (gr_mem gslots)[0 := NUL]\<rparr>,
             (native (N_getgrnam name) e (clear_errno w))\<lparr>errno := ENOENT\<rparr>)) \<and>
      (uint gid < 2 ^ 32 \<and> (\<forall>g\<in>set gdb. gr_gid g \<noteq> uint gid) \<longrightarrow>
       posix_getgrgid 5 gid gslots gdb e w =
        Inr (ENOENT,
             \<lparr>gr_name = (gr_name gslots)[0 := NUL], gr_passwd = (gr_passwd gslots)[0 := NUL],
              gr_gid = 0, gr_mem = (gr_mem gslots)[0 := NUL]\<rparr>,
             (native (N_getgrgid (ucast gid)) e (clear_errno w))\<lparr>errno := ENOENT\<rparr>))"
    by (simp add: posix_getgrnam_def posix_getgrgid_def u_posix_getgr_def getgr_absent
        bnd_def poke_def Let_def)
  show ?thesis
    by (intro conjI) (rule z, rule pn, rule gn)
qed

text \<open>
  Claim C9 as first stated covers every numeric id. The id \<open>2 ^ 32\<close> (4294967296) is the id
  of no entry of a database that holds the entry of \<^verbatim>\<open>root\<close> alone, whose id is 0; the
  call of \<^verbatim>\<open>getpwuid\<close> narrows it to 0, and the operation returns 0 with the entry of
  \<^verbatim>\<open>root\<close> in the output slots.
\<close>

theorem lookup_not_found_counterexample:
  "uint (4294967296 :: gtm_ulong_t) = 4294967296
   \<and> map pw_uid [\<lparr>pw_name = ''root'', pw_passwd = ''x'', pw_uid = 0, pw_gid = 0, pw_gecos = ''root'',
                   pw_dir = ''/root'', pw_shell = ''/bin/sh''\<rparr>] = [0]
   \<and> posix_getpwuid 8 4294967296
        \<lparr>pw_name = ''........'', pw_passwd = ''........'', pw_uid = 7, pw_gid = 7,
         pw_gecos = ''........'', pw_dir = ''........'', pw_shell = ''........''\<rparr>
        [\<lparr>pw_name = ''root'', pw_passwd = ''x'', pw_uid = 0, pw_gid = 0, pw_gecos = ''root'',
          pw_dir = ''/root'', pw_shell = ''/bin/sh''\<rparr>] None init_world =
       Inr (0,
            \<lparr>pw_name = ''root'' @ NUL # ''...'', pw_passwd = ''x'' @ NUL # ''......'', pw_uid = 0,
             pw_gid = 0, pw_gecos = ''root'' @ NUL # ''...'', pw_dir = ''/root'' @ NUL # ''..'',
             pw_shell = ''/bin/sh'' @ [NUL]\<rparr>,
            init_world\<lparr>calls := [N_getpwuid 0]\<rparr>)"
  by (simp add: posix_getpwuid_def u_posix_getpw_def getpwuid_def bnd_def poke_def Let_def
      strncopy.simps deref_def NUL_def native_def clear_errno_def init_world_def)

theorem lookup_not_found_enoent_witness:
  "ENOENT \<noteq> 0
   \<and> posix_getpwnam 8 ''nobody2'' \<lparr>pw_name = ''xx'', pw_passwd = ''xx'', pw_uid = 7, pw_gid = 7,
        pw_gecos = ''xx'', pw_dir = ''xx'', pw_shell = ''xx''\<rparr>
        [\<lparr>pw_name = ''root'', pw_passwd = ''x'', pw_uid = 0, pw_gid = 0, pw_gecos = ''root'',
          pw_dir = ''/root'', pw_shell = ''/bin/sh''\<rparr>] None init_world =
       Inr (ENOENT,
            \<lparr>pw_name = NUL # ''x'', pw_passwd = NUL # ''x'', pw_uid = 0, pw_gid = 0,
             pw_gecos = NUL # ''x'', pw_dir = NUL # ''x'', pw_shell = NUL # ''x''\<rparr>,
            (native (N_getpwnam ''nobody2'') None (clear_errno init_world))\<lparr>errno := ENOENT\<rparr>)
   \<and> posix_getpwuid 8 4242 \<lparr>pw_name = ''xx'', pw_passwd = ''xx'', pw_uid = 7, pw_gid = 7,
        pw_gecos = ''xx'', pw_dir = ''xx'', pw_shell = ''xx''\<rparr>
        [\<lparr>pw_name = ''root'', pw_passwd = ''x'', pw_uid = 0, pw_gid = 0, pw_gecos = ''root'',
          pw_dir = ''/root'', pw_shell = ''/bin/sh''\<rparr>] None init_world =
       Inr (ENOENT,
            \<lparr>pw_name = NUL # ''x'', pw_passwd = NUL # ''x'', pw_uid = 0, pw_gid = 0,
             pw_gecos = NUL # ''x'', pw_dir = NUL # ''x'', pw_shell = NUL # ''x''\<rparr>,
            (native (N_getpwuid 4242) None (clear_errno init_world))\<lparr>errno := ENOENT\<rparr>)
   \<and> posix_getgrnam 5 ''staff2'' \<lparr>gr_name = ''xx'', gr_passwd = ''xx'', gr_gid = 7, gr_mem = ''xx''\<rparr>
        [\<lparr>gr_name = ''root'', gr_passwd = ''x'', gr_gid = 0, gr_mem = []\<rparr>] None init_world =
       Inr (ENOENT,
            \<lparr>gr_name = NUL # ''x'', gr_passwd = NUL # ''x'', gr_gid = 0, gr_mem = NUL # ''x''\<rparr>,
            (native (N_getgrnam ''staff2'') None (clear_errno init_world))\<lparr>errno := ENOENT\<rparr>)
   \<and> posix_getgrgid 5 4242 \<lparr>gr_name = ''xx'', gr_passwd = ''xx'', gr_gid = 7, gr_mem = ''xx''\<rparr>
        [\<lparr>gr_name = ''root'', gr_passwd = ''x'', gr_gid = 0, gr_mem = []\<rparr>] None init_world =
       Inr (ENOENT,
            \<lparr>gr_name = NUL # ''x'', gr_passwd = NUL # ''x'', gr_gid = 0, gr_mem = NUL # ''x''\<rparr>,
            (native (N_getgrgid 4242) None (clear_errno init_world))\<lparr>errno := ENOENT\<rparr>)"
  using lookup_not_found_enoent [where slots = "\<lparr>pw_name = ''xx'', pw_passwd = ''xx'', pw_uid = 7, pw_gid = 7,
        pw_gecos = ''xx'', pw_dir = ''xx'', pw_shell = ''xx''\<rparr>"
      and db = "[\<lparr>pw_name = ''root'', pw_passwd = ''x'', pw_uid = 0, pw_gid = 0, pw_gecos = ''root'',
          pw_dir = ''/root'', pw_shell = ''/bin/sh''\<rparr>]"
      and name = "''nobody2''" and uid = 4242 and e = None and w = init_world]
    lookup_not_found_enoent [where gslots = "\<lparr>gr_name = ''xx'', gr_passwd = ''xx'', gr_gid = 7, gr_mem = ''xx''\<rparr>"
      and gdb = "[\<lparr>gr_name = ''root'', gr_passwd = ''x'', gr_gid = 0, gr_mem = []\<rparr>]"
      and name = "''staff2''" and gid = 4242 and e = None and w = init_world]
  by simp

subsection \<open>Multi-valued option strings\<close>

lemma get_flags_loop_tokens:
  "get_flags_loop param s flags =
     (if \<forall>t\<in>set (tokens s). u_get_param param t \<noteq> None
      then Some (foldl (\<lambda>a t. a OR the (u_get_param param t)) flags (tokens s))
      else None)"
proof (induction param s flags rule: get_flags_loop.induct)
  case (1 param rest flags)
  show ?case
  proof (cases "strtok rest list_delimiter")
    case None
    have g: "get_flags_loop param rest flags = Some flags"
      by (subst get_flags_loop.simps) (simp add: None)
    have t: "tokens rest = []"
      by (subst tokens.simps) (simp add: None)
    show ?thesis
      by (simp add: g t)
  next
    case (Some a)
    obtain p rest' where a: "a = (p, rest')" by (cases a)
    have t: "tokens rest = p # tokens rest'"
      by (subst tokens.simps) (simp add: Some a)
    show ?thesis
    proof (cases "u_get_param param p")
      case None
      have g: "get_flags_loop param rest flags = None"
        by (subst get_flags_loop.simps) (simp add: Some a None)
      show ?thesis
        by (simp add: g t None)
    next
      case f: (Some f)
      have g: "get_flags_loop param rest flags = get_flags_loop param rest' (flags OR f)"
        by (subst get_flags_loop.simps) (simp add: Some a f)
      have ih: "get_flags_loop param rest' (flags OR f) =
        (if \<forall>t\<in>set (tokens rest'). u_get_param param t \<noteq> None
         then Some (foldl (\<lambda>a t. a OR the (u_get_param param t)) (flags OR f) (tokens rest'))
         else None)"
        using Some a f by (intro "1.IH") simp_all
      show ?thesis
        by (simp add: g t ih f)
    qed
  qed
qed

text \<open>
  The tokens \<^verbatim>\<open>strtok\<close> hands to the loop are the entries of the string that are not
  empty, in their order: \<^verbatim>\<open>strtok\<close> skips every run of delimiters.
\<close>

lemma spec_entries_unfold:
  "spec_entries s =
     takeWhile (\<lambda>c. c \<noteq> list_delimiter) s #
       (if dropWhile (\<lambda>c. c \<noteq> list_delimiter) s = [] then []
        else spec_entries (drop 1 (dropWhile (\<lambda>c. c \<noteq> list_delimiter) s)))"
proof (induction s)
  case Nil
  show ?case by simp
next
  case (Cons c s)
  show ?case
  proof (cases "c = list_delimiter")
    case True
    then show ?thesis by simp
  next
    case False
    have "spec_entries (c # s) = (case spec_entries s of [] \<Rightarrow> [[c]] | e # es \<Rightarrow> (c # e) # es)"
      using False by simp
    also have "\<dots> = (c # takeWhile (\<lambda>c. c \<noteq> list_delimiter) s) #
       (if dropWhile (\<lambda>c. c \<noteq> list_delimiter) s = [] then []
        else spec_entries (drop 1 (dropWhile (\<lambda>c. c \<noteq> list_delimiter) s)))"
      by (subst Cons.IH) (simp only: list.case)
    also have "\<dots> = takeWhile (\<lambda>c. c \<noteq> list_delimiter) (c # s) #
       (if dropWhile (\<lambda>c. c \<noteq> list_delimiter) (c # s) = [] then []
        else spec_entries (drop 1 (dropWhile (\<lambda>c. c \<noteq> list_delimiter) (c # s))))"
      using False by (auto simp del: spec_entries.simps)
    finally show ?thesis .
  qed
qed

lemma strtok_delim: "strtok (list_delimiter # s) list_delimiter = strtok s list_delimiter"
  by (simp add: strtok_def)

lemma tokens_delim: "tokens (list_delimiter # s) = tokens s"
proof -
  have "tokens (list_delimiter # s) =
      (case strtok s list_delimiter of None \<Rightarrow> [] | Some (p, rest) \<Rightarrow> p # tokens rest)"
    by (subst tokens.simps) (simp only: strtok_delim)
  also have "\<dots> = tokens s"
    by (rule tokens.simps [symmetric])
  finally show ?thesis .
qed

lemma tokens_Nil: "tokens [] = []"
  by (subst tokens.simps) (simp add: strtok_def)

lemma tokens_char:
  "c \<noteq> list_delimiter \<Longrightarrow>
   tokens (c # s) = (c # takeWhile (\<lambda>c. c \<noteq> list_delimiter) s) #
     tokens (drop 1 (dropWhile (\<lambda>c. c \<noteq> list_delimiter) s))"
  by (subst tokens.simps) (simp add: strtok_def)

lemma spec_entries_char:
  assumes "c \<noteq> list_delimiter"
  shows "spec_entries (c # s) =
     (c # takeWhile (\<lambda>c. c \<noteq> list_delimiter) s) #
       (if dropWhile (\<lambda>c. c \<noteq> list_delimiter) s = [] then []
        else spec_entries (drop 1 (dropWhile (\<lambda>c. c \<noteq> list_delimiter) s)))"
  using spec_entries_unfold [of "c # s"] assms
  by (auto simp del: spec_entries.simps)

lemma tokens_spec_entries: "tokens s = filter (\<lambda>t. t \<noteq> []) (spec_entries s)"
proof (induction s rule: length_induct)
  case (1 s)
  show ?case
  proof (cases s)
    case Nil
    then show ?thesis by (simp add: tokens_Nil)
  next
    case (Cons c s')
    show ?thesis
    proof (cases "c = list_delimiter")
      case True
      with Cons 1 show ?thesis by (simp add: tokens_delim)
    next
      case False
      let ?r = "drop 1 (dropWhile (\<lambda>c. c \<noteq> list_delimiter) s')"
      have "length ?r < length s"
        using length_dropWhile_le [of "\<lambda>c. c \<noteq> list_delimiter" s'] by (simp add: Cons)
      with 1 have ih: "tokens ?r = filter (\<lambda>t. t \<noteq> []) (spec_entries ?r)" by blast
      show ?thesis
      proof (cases "dropWhile (\<lambda>c. c \<noteq> list_delimiter) s' = []")
        case True
        then have "tokens ?r = []" by (simp only: drop_Nil tokens_Nil)
        then show ?thesis
          unfolding Cons tokens_char [OF False] spec_entries_char [OF False] True
          by (simp add: tokens_Nil del: spec_entries.simps)
      next
        case nonempty: False
        show ?thesis
          unfolding Cons tokens_char [OF False] spec_entries_char [OF False] ih
          using nonempty by (auto simp del: spec_entries.simps)
      qed
    qed
  qed
qed

lemma bit_foldl_or:
  "bit (foldl (\<lambda>a t. a OR g t) (a0 :: int) ts) n \<longleftrightarrow> bit a0 n \<or> (\<exists>t\<in>set ts. bit (g t) n)"
  by (induction ts arbitrary: a0) (auto simp: bit_or_iff)

lemma foldl_or_set:
  assumes "set ts = set ts'"
  shows "foldl (\<lambda>a t. a OR g t) (a0 :: int) ts = foldl (\<lambda>a t. a OR g t) a0 ts'"
  by (rule bit_eqI) (simp add: bit_foldl_or assms)

lemma foldl_or_foldr:
  "foldl (\<lambda>a t. a OR g t) (a0 :: int) ts = a0 OR foldr (\<lambda>t a. g t OR a) ts 0"
  by (induction ts arbitrary: a0) (simp_all add: or.assoc)

lemma tolower_idem: "tolower (tolower c) = tolower c"
  by (simp add: tolower_def)

lemma strcasecmp_tolower: "strcasecmp a (map tolower b) = strcasecmp a b"
  by (induction a b rule: strcasecmp.induct) (simp_all add: tolower_idem)

lemma u_get_param_tolower: "u_get_param param (map tolower t) = u_get_param param t"
  by (induction param) (simp_all add: strcasecmp_tolower)

lemma u_get_flags_entries:
  "u_get_flags param name =
     (if \<forall>t\<in>set (spec_entries name). t \<noteq> [] \<longrightarrow> u_get_param param t \<noteq> None
      then Some (foldr (\<lambda>t a. the (u_get_param param t) OR a)
                   (filter (\<lambda>t. t \<noteq> []) (spec_entries name)) 0)
      else None)"
  by (auto simp: u_get_flags_def get_flags_loop_tokens tokens_spec_entries foldl_or_foldr)

lemma posix_openlog_cases:
  "posix_openlog 3 ident option_name facility_name rm ro w =
     (let w2 = native (N_malloc (length ident + 1)) (snd rm) (clear_errno w)
      in if \<not> fst rm then (errno w2, w2)
         else if u_get_flags option_param option_name = None \<or>
                 u_get_flags facility_param facility_name = None then (EINVAL, w2)
         else (errno (native (N_openlog ident (the (u_get_flags option_param option_name))
                        (the (u_get_flags facility_param facility_name))) ro w2),
               native (N_openlog ident (the (u_get_flags option_param option_name))
                 (the (u_get_flags facility_param facility_name))) ro w2))"
  by (auto simp: posix_openlog_def Let_def split: option.splits)

text \<open>
  Claim C10, as amended. The entries of an option string are the pieces between its
  delimiters (\<open>spec_entries\<close>); the empty ones are skipped. If every entry that is not empty
  resolves in the table, \<^verbatim>\<open>_get_flags\<close> yields the bitwise or of the values of those
  entries; the result is the same for any other string with the same entries, whatever
  their order; two names that differ in case only resolve alike. If some entry that is not
  empty does not resolve, \<^verbatim>\<open>_get_flags\<close> fails and stores no mask.
  \<^verbatim>\<open>posix_openlog\<close>, when the option string or the facility string has such an entry,
  makes no native call after the allocation of its copy of \<^verbatim>\<open>ident\<close> (so
  \<^verbatim>\<open>openlog\<close> is not called) and, the allocation having succeeded, returns
  \<^verbatim>\<open>EINVAL\<close>; when the allocation succeeds and both strings decode, it calls
  \<^verbatim>\<open>openlog\<close> with the two masks; when the allocation fails, it returns the
  \<^verbatim>\<open>errno\<close> of the allocation and does nothing else.
\<close>

theorem get_flags_decoding:
  "((\<forall>t\<in>set (spec_entries name). t \<noteq> [] \<longrightarrow> u_get_param param t \<noteq> None) \<longrightarrow>
      u_get_flags param name =
        Some (foldr (\<lambda>t a. the (u_get_param param t) OR a)
                (filter (\<lambda>t. t \<noteq> []) (spec_entries name)) 0))
   \<and> ((\<forall>t\<in>set (spec_entries name). t \<noteq> [] \<longrightarrow> u_get_param param t \<noteq> None) \<and>
       set (filter (\<lambda>t. t \<noteq> []) (spec_entries other)) =
         set (filter (\<lambda>t. t \<noteq> []) (spec_entries name)) \<longrightarrow>
      u_get_flags param other = u_get_flags param name)
   \<and> (map tolower t = map tolower t' \<longrightarrow> u_get_param param t = u_get_param param t')
   \<and> ((\<exists>t\<in>set (spec_entries name). t \<noteq> [] \<and> u_get_param param t = None) \<longrightarrow>
      u_get_flags param name = None)
   \<and> ((\<exists>t\<in>set (spec_entries option_name). t \<noteq> [] \<and> u_get_param option_param t = None) \<or>
       (\<exists>t\<in>set (spec_entries facility_name). t \<noteq> [] \<and> u_get_param facility_param t = None) \<longrightarrow>
      snd (posix_openlog 3 ident option_name facility_name rm ro w) =
        native (N_malloc (length ident + 1)) (snd rm) (clear_errno w) \<and>
      (fst rm \<longrightarrow> fst (posix_openlog 3 ident option_name facility_name rm ro w) = EINVAL))
   \<and> (fst rm \<and> u_get_flags option_param option_name = Some opt \<and>
       u_get_flags facility_param facility_name = Some fac \<longrightarrow>
      posix_openlog 3 ident option_name facility_name rm ro w =
        (errno (native (N_openlog ident opt fac) ro
                  (native (N_malloc (length ident + 1)) (snd rm) (clear_errno w))),
         native (N_openlog ident opt fac) ro
           (native (N_malloc (length ident + 1)) (snd rm) (clear_errno w))))
   \<and> (\<not> fst rm \<longrightarrow>
      posix_openlog 3 ident option_name facility_name rm ro w =
        (errno (native (N_malloc (length ident + 1)) (snd rm) (clear_errno w)),
         native (N_malloc (length ident + 1)) (snd rm) (clear_errno w)))"
proof -
  have a: "(\<forall>t\<in>set (spec_entries name). t \<noteq> [] \<longrightarrow> u_get_param param t \<noteq> None) \<longrightarrow>
      u_get_flags param name =
        Some (foldr (\<lambda>t a. the (u_get_param param t) OR a)
                (filter (\<lambda>t. t \<noteq> []) (spec_entries name)) 0)"
    by (simp add: u_get_flags_entries)
  have b: "(\<forall>t\<in>set (spec_entries name). t \<noteq> [] \<longrightarrow> u_get_param param t \<noteq> None) \<and>
       set (filter (\<lambda>t. t \<noteq> []) (spec_entries other)) =
         set (filter (\<lambda>t. t \<noteq> []) (spec_entries name)) \<longrightarrow>
      u_get_flags param other = u_get_flags param name"
    using foldl_or_set [of "tokens other" "tokens name" "\<lambda>t. the (u_get_param param t)" 0]
    by (simp add: u_get_flags_def get_flags_loop_tokens tokens_spec_entries)
  have c: "map tolower t = map tolower t' \<longrightarrow> u_get_param param t = u_get_param param t'"
  proof
    assume "map tolower t = map tolower t'"
    then have "u_get_param param (map tolower t) = u_get_param param (map tolower t')"
      by simp
    then show "u_get_param param t = u_get_param param t'"
      by (simp only: u_get_param_tolower)
  qed
  have d: "(\<exists>t\<in>set (spec_entries name). t \<noteq> [] \<and> u_get_param param t = None) \<longrightarrow>
      u_get_flags param name = None"
    by (auto simp: u_get_flags_entries)
  have e: "(\<exists>t\<in>set (spec_entries option_name). t \<noteq> [] \<and> u_get_param option_param t = None) \<or>
       (\<exists>t\<in>set (spec_entries facility_name). t \<noteq> [] \<and> u_get_param facility_param t = None) \<longrightarrow>
      snd (posix_openlog 3 ident option_name facility_name rm ro w) =
        native (N_malloc (length ident + 1)) (snd rm) (clear_errno w) \<and>
      (fst rm \<longrightarrow> fst (posix_openlog 3 ident option_name facility_name rm ro w) = EINVAL)"
  proof
    assume "(\<exists>t\<in>set (spec_entries option_name). t \<noteq> [] \<and> u_get_param option_param t = None) \<or>
       (\<exists>t\<in>set (spec_entries facility_name). t \<noteq> [] \<and> u_get_param facility_param t = None)"
    then have n: "u_get_flags option_param option_name = None \<or>
        u_get_flags facility_param facility_name = None"
      by (auto simp: u_get_flags_entries)
    show "snd (posix_openlog 3 ident option_name facility_name rm ro w) =
        native (N_malloc (length ident + 1)) (snd rm) (clear_errno w) \<and>
      (fst rm \<longrightarrow> fst (posix_openlog 3 ident option_name facility_name rm ro w) = EINVAL)"
      unfolding posix_openlog_cases using n by (simp add: Let_def)
  qed
  have f: "fst rm \<and> u_get_flags option_param option_name = Some opt \<and>
       u_get_flags facility_param facility_name = Some fac \<longrightarrow>
      posix_openlog 3 ident option_name facility_name rm ro w =
        (errno (native (N_openlog ident opt fac) ro
                  (native (N_malloc (length ident + 1)) (snd rm) (clear_errno w))),
         native (N_openlog ident opt fac) ro
           (native (N_malloc (length ident + 1)) (snd rm) (clear_errno w)))"
    unfolding posix_openlog_cases by (simp add: Let_def)
  have h: "\<not> fst rm \<longrightarrow>
      posix_openlog 3 ident option_name facility_name rm ro w =
        (errno (native (N_malloc (length ident + 1)) (snd rm) (clear_errno w)),
         native (N_malloc (length ident + 1)) (snd rm) (clear_errno w))"
    unfolding posix_openlog_cases by (simp add: Let_def)
  show ?thesis
    by (intro conjI) (rule a, rule b, rule c, rule d, rule e, rule f, rule h)
qed

lemma entries_examples:
  "spec_entries ''PID|CONS'' = [''PID'', ''CONS'']" "spec_entries ''CONS|PID'' = [''CONS'', ''PID'']"
  "spec_entries ''pid|cons'' = [''pid'', ''cons'']" "spec_entries ''PID|BOGUS'' = [''PID'', ''BOGUS'']"
  "spec_entries ''PID||CONS'' = [''PID'', [], ''CONS'']" "spec_entries ''PID'' = [''PID'']"
  "spec_entries ''USER'' = [''USER'']" "spec_entries ''BOGUS'' = [''BOGUS'']"
  by (simp_all add: list_delimiter_def)

lemma of_char_tolower:
  "(of_char (tolower c) :: nat) =
     (if 65 \<le> (of_char c :: nat) \<and> (of_char c :: nat) \<le> 90 then of_char c + 32 else of_char c)"
  by (simp add: tolower_def)

lemma tolower_eq_iff: "tolower a = tolower b \<longleftrightarrow> (of_char (tolower a) :: nat) = of_char (tolower b)"
  by simp

lemma option_param_lookups:
  "u_get_param option_param ''PID'' = Some 1" "u_get_param option_param ''CONS'' = Some 2"
  "u_get_param option_param ''pid'' = Some 1" "u_get_param option_param ''cons'' = Some 2"
  "u_get_param option_param ''BOGUS'' = None" "u_get_param option_param [] = None"
  by (simp_all add: option_param_def tolower_eq_iff of_char_tolower LOG_PID_def LOG_CONS_def)

lemma facility_param_lookups:
  "u_get_param facility_param ''USER'' = Some 8" "u_get_param facility_param ''BOGUS'' = None"
  by (simp_all add: facility_param_def tolower_eq_iff of_char_tolower LOG_USER_def)

lemma get_flags_examples:
  "u_get_flags option_param ''PID|CONS'' = Some 3" "u_get_flags option_param ''PID||CONS'' = Some 3"
  "u_get_flags option_param ''PID|BOGUS'' = None" "u_get_flags facility_param ''USER'' = Some 8"
  by (simp_all add: u_get_flags_entries entries_examples option_param_lookups facility_param_lookups
      del: spec_entries.simps)

text \<open>
  Claim C10 as first stated fails every string with an entry that does not resolve. The
  string \<^verbatim>\<open>PID||CONS\<close> has an empty entry between its two delimiters, and the empty name
  is in no table; \<^verbatim>\<open>_get_flags\<close> decodes the string to 3 all the same, and
  \<^verbatim>\<open>posix_openlog\<close> calls \<^verbatim>\<open>openlog\<close> with it. And when the allocation of the
  copy of \<^verbatim>\<open>ident\<close> fails (here with 12, \<^verbatim>\<open>ENOMEM\<close>), \<^verbatim>\<open>posix_openlog\<close>
  returns that \<^verbatim>\<open>errno\<close> before it decodes anything, not \<^verbatim>\<open>EINVAL\<close>.
\<close>

theorem get_flags_decoding_counterexample:
  "spec_entries ''PID||CONS'' = [''PID'', [], ''CONS'']
   \<and> u_get_param option_param [] = None
   \<and> u_get_flags option_param ''PID||CONS'' = Some 3
   \<and> posix_openlog 3 ''prog'' ''PID||CONS'' ''USER'' (True, None) None init_world =
       (0, init_world\<lparr>calls := [N_malloc 5, N_openlog ''prog'' 3 8]\<rparr>)
   \<and> posix_openlog 3 ''prog'' ''PID|BOGUS'' ''USER'' (False, Some 12) None init_world =
       (12, init_world\<lparr>calls := [N_malloc 5], errno := 12\<rparr>)
   \<and> (12 :: int) \<noteq> EINVAL"
  by (simp add: posix_openlog_cases get_flags_examples entries_examples option_param_lookups
      Let_def native_def clear_errno_def init_world_def EINVAL_def del: spec_entries.simps)

theorem get_flags_decoding_witness:
  "u_get_flags option_param ''PID|CONS'' = Some 3
   \<and> u_get_flags option_param ''CONS|PID'' = u_get_flags option_param ''PID|CONS''
   \<and> u_get_param option_param ''pid'' = u_get_param option_param ''PID''
   \<and> u_get_flags option_param ''PID|BOGUS'' = None
   \<and> posix_openlog 3 ''prog'' ''PID|BOGUS'' ''USER'' (True, None) None init_world =
       (EINVAL, native (N_malloc 5) None (clear_errno init_world))
   \<and> posix_openlog 3 ''prog'' ''PID'' ''BOGUS'' (True, None) None init_world =
       (EINVAL, native (N_malloc 5) None (clear_errno init_world))
   \<and> posix_openlog 3 ''prog'' ''PID|CONS'' ''USER'' (True, None) None init_world =
       (0, init_world\<lparr>calls := [N_malloc 5, N_openlog ''prog'' 3 8]\<rparr>)
   \<and> posix_openlog 3 ''prog'' ''PID|CONS'' ''USER'' (False, Some 12) None init_world =
       (12, init_world\<lparr>calls := [N_malloc 5], errno := 12\<rparr>)"
proof -
  have a: "u_get_flags option_param ''PID|CONS'' = Some 3"
    using get_flags_decoding [where param = option_param and name = "''PID|CONS''", THEN conjunct1]
    by (simp add: entries_examples option_param_lookups del: spec_entries.simps)
  have b: "u_get_flags option_param ''CONS|PID'' = u_get_flags option_param ''PID|CONS''"
    using get_flags_decoding [where param = option_param and name = "''PID|CONS''"
        and other = "''CONS|PID''", THEN conjunct2, THEN conjunct1]
    by (simp add: entries_examples option_param_lookups insert_commute del: spec_entries.simps)
  have c: "u_get_param option_param ''pid'' = u_get_param option_param ''PID''"
    using get_flags_decoding [where param = option_param and t = "''pid''" and t' = "''PID''",
        THEN conjunct2, THEN conjunct2, THEN conjunct1]
    by (simp add: tolower_eq_iff of_char_tolower)
  have d: "u_get_flags option_param ''PID|BOGUS'' = None"
    using get_flags_decoding [where param = option_param and name = "''PID|BOGUS''",
        THEN conjunct2, THEN conjunct2, THEN conjunct2, THEN conjunct1]
    by (simp add: entries_examples option_param_lookups del: spec_entries.simps)
  have e1: "posix_openlog 3 ''prog'' ''PID|BOGUS'' ''USER'' (True, None) None init_world =
       (EINVAL, native (N_malloc 5) None (clear_errno init_world))"
    using get_flags_decoding [where option_name = "''PID|BOGUS''" and ident = "''prog''"
        and facility_name = "''USER''" and rm = "(True, None)" and ro = None and w = init_world,
        THEN conjunct2, THEN conjunct2, THEN conjunct2, THEN conjunct2, THEN conjunct1]
    by (simp add: entries_examples option_param_lookups prod_eq_iff eval_nat_numeral
        del: spec_entries.simps)
  have e2: "posix_openlog 3 ''prog'' ''PID'' ''BOGUS'' (True, None) None init_world =
       (EINVAL, native (N_malloc 5) None (clear_errno init_world))"
    using get_flags_decoding [where option_name = "''PID''" and ident = "''prog''"
        and facility_name = "''BOGUS''" and rm = "(True, None)" and ro = None and w = init_world,
        THEN conjunct2, THEN conjunct2, THEN conjunct2, THEN conjunct2, THEN conjunct1]
    by (simp add: entries_examples facility_param_lookups prod_eq_iff eval_nat_numeral
        del: spec_entries.simps)
  have f: "posix_openlog 3 ''prog'' ''PID|CONS'' ''USER'' (True, None) None init_world =
       (0, init_world\<lparr>calls := [N_malloc 5, N_openlog ''prog'' 3 8]\<rparr>)"
    using get_flags_decoding [where option_name = "''PID|CONS''" and ident = "''prog''"
        and facility_name = "''USER''" and rm = "(True, None)" and ro = None and w = init_world
        and opt = 3 and fac = 8,
        THEN conjunct2, THEN conjunct2, THEN conjunct2, THEN conjunct2, THEN conjunct2,
        THEN conjunct1]
    by (simp add: get_flags_examples native_def clear_errno_def init_world_def)
  have h: "posix_openlog 3 ''prog'' ''PID|CONS'' ''USER'' (False, Some 12) None init_world =
       (12, init_world\<lparr>calls := [N_malloc 5], errno := 12\<rparr>)"
    using get_flags_decoding [where option_name = "''PID|CONS''" and ident = "''prog''"
        and facility_name = "''USER''" and rm = "(False, Some 12)" and ro = None
        and w = init_world,
        THEN conjunct2, THEN conjunct2, THEN conjunct2, THEN conjunct2, THEN conjunct2,
        THEN conjunct2]
    by (simp add: native_def clear_errno_def init_world_def)
  from a b c d e1 e2 f h show ?thesis
    by (intro conjI)
qed

subsection \<open>The directory-handle table\<close>

lemma in_list_loop_miss:
  "(\<And>j. i \<le> j \<Longrightarrow> j < cnt \<Longrightarrow> list ! j \<noteq> p) \<Longrightarrow> in_list_loop p list cnt remove i = (0, list, cnt)"
proof (induction p list cnt remove i rule: in_list_loop.induct)
  case (1 p list cnt remove i)
  show ?case
  proof (cases "i < cnt")
    case True
    then have ne: "list ! i \<noteq> p"
      using "1.prems" [of i] by simp
    have "in_list_loop p list cnt remove (i + 1) = (0, list, cnt)"
      using True ne "1.prems" by (intro "1.IH") simp_all
    then show ?thesis
      using True ne by (subst in_list_loop.simps) simp
  next
    case False
    then show ?thesis by (subst in_list_loop.simps) simp
  qed
qed

lemma in_list_loop_hit:
  "i \<le> k \<Longrightarrow> k < cnt \<Longrightarrow> list ! k = p \<Longrightarrow> (\<And>j. i \<le> j \<Longrightarrow> j < k \<Longrightarrow> list ! j \<noteq> p) \<Longrightarrow>
   in_list_loop p list cnt remove i =
     (1, if remove then list[k := list ! (cnt - 1)] else list, if remove then cnt - 1 else cnt)"
proof (induction p list cnt remove i rule: in_list_loop.induct)
  case (1 p list cnt remove i)
  show ?case
  proof (cases "i = k")
    case True
    then show ?thesis
      using "1.prems"(2,3) by (subst in_list_loop.simps) simp
  next
    case False
    then have lt: "i < k" using "1.prems"(1) by simp
    then have ne: "list ! i \<noteq> p" using "1.prems"(4) [of i] by simp
    have ic: "i < cnt" using lt "1.prems"(2) by simp
    have "in_list_loop p list cnt remove (i + 1) =
      (1, if remove then list[k := list ! (cnt - 1)] else list, if remove then cnt - 1 else cnt)"
      using ic ne lt "1.prems" by (intro "1.IH") simp_all
    then show ?thesis
      using ic ne by (subst in_list_loop.simps) simp
  qed
qed

lemma set_take_conv_nth:
  "cnt \<le> length list \<Longrightarrow> set (take cnt list) = {list ! j |j. j < cnt}"
proof -
  assume "cnt \<le> length list"
  then have "set (take cnt list) = (!) list ` {0..<cnt}"
    by (rule nth_image [symmetric])
  also have "\<dots> = {list ! j |j. j < cnt}"
    by auto
  finally show ?thesis .
qed

lemma in_list_absent:
  assumes "cnt \<le> length list" and "p \<notin> set (take cnt list)"
  shows "in_list p list cnt remove = (0, list, cnt)"
  unfolding in_list_def
proof (rule in_list_loop_miss)
  fix j assume "j < cnt"
  then have "list ! j \<in> set (take cnt list)"
    using assms(1) by (auto simp: set_take_conv_nth)
  with assms(2) show "list ! j \<noteq> p" by auto
qed

lemma first_index:
  assumes "cnt \<le> length list" and "p \<in> set (take cnt list)"
  shows "\<exists>k. k < cnt \<and> list ! k = p \<and> (\<forall>j<k. list ! j \<noteq> p)"
proof -
  from assms have ex: "\<exists>k. k < cnt \<and> list ! k = p"
    by (auto simp: set_take_conv_nth)
  define k where "k = (LEAST k. k < cnt \<and> list ! k = p)"
  have kp: "k < cnt \<and> list ! k = p"
    unfolding k_def using ex by (rule LeastI_ex)
  have "\<forall>j<k. list ! j \<noteq> p"
  proof (intro allI impI notI)
    fix j assume "j < k" "list ! j = p"
    moreover from this have "j < cnt" using kp by simp
    ultimately have "k \<le> j" unfolding k_def by (intro Least_le) simp
    with \<open>j < k\<close> show False by simp
  qed
  with kp show ?thesis by blast
qed

lemma in_list_present_keep:
  assumes "cnt \<le> length list" and "p \<in> set (take cnt list)"
  shows "in_list p list cnt False = (1, list, cnt)"
proof -
  obtain k where k: "k < cnt" "list ! k = p" "\<And>j. j < k \<Longrightarrow> list ! j \<noteq> p"
    using first_index [OF assms] by blast
  show ?thesis
    unfolding in_list_def using in_list_loop_hit [of 0 k cnt list p False] k by simp
qed

lemma in_list_present_remove:
  assumes "cnt \<le> length list" and "p \<in> set (take cnt list)" and "distinct (take cnt list)"
  shows "\<exists>list'. in_list p list cnt True = (1, list', cnt - 1) \<and> length list' = length list \<and>
           set (take (cnt - 1) list') = set (take cnt list) - {p} \<and> distinct (take (cnt - 1) list')"
proof -
  obtain k where k: "k < cnt" "list ! k = p" "\<And>j. j < k \<Longrightarrow> list ! j \<noteq> p"
    using first_index [OF assms(1,2)] by blast
  define list' where "list' = list[k := list ! (cnt - 1)]"
  have r: "in_list p list cnt True = (1, list', cnt - 1)"
    unfolding in_list_def list'_def using in_list_loop_hit [of 0 k cnt list p True] k by simp
  have inj0: "\<And>a b. a < cnt \<Longrightarrow> b < cnt \<Longrightarrow> list ! a = list ! b \<Longrightarrow> a = b"
    using assms(1,3) by (auto simp: distinct_conv_nth)
  have inj: "\<And>a b. a \<le> cnt - 1 \<Longrightarrow> b \<le> cnt - 1 \<Longrightarrow> list ! a = list ! b \<Longrightarrow> a = b"
    using inj0 k(1) by simp
  have kle: "k \<le> cnt - 1"
    using k(1) by simp
  have nth': "\<And>j. j < cnt - 1 \<Longrightarrow> list' ! j = (if j = k then list ! (cnt - 1) else list ! j)"
    using assms(1) by (simp add: list'_def)
  have len: "length list' = length list"
    by (simp add: list'_def)
  have c1: "cnt - 1 \<le> length list'"
    using assms(1) len by simp
  have s: "set (take (cnt - 1) list') = set (take cnt list) - {p}"
  proof (rule set_eqI, rule iffI)
    fix x assume "x \<in> set (take (cnt - 1) list')"
    then obtain j where j: "j < cnt - 1" "x = list' ! j"
      using c1 by (auto simp: set_take_conv_nth)
    show "x \<in> set (take cnt list) - {p}"
    proof (cases "j = k")
      case True
      then have x: "x = list ! (cnt - 1)" using j nth' by simp
      have "cnt - 1 \<noteq> k" using j True by simp
      then have "list ! (cnt - 1) \<noteq> list ! k"
        using inj [of "cnt - 1" k] kle by auto
      then show ?thesis
        using x k(1,2) assms(1) by (auto simp: set_take_conv_nth)
    next
      case False
      then have x: "x = list ! j" using j nth' by simp
      have "list ! j \<noteq> list ! k"
        using inj [of j k] j(1) kle False by auto
      then show ?thesis
        using x j(1) k(2) assms(1) by (auto simp: set_take_conv_nth)
    qed
  next
    fix x assume "x \<in> set (take cnt list) - {p}"
    then obtain j where j: "j < cnt" "x = list ! j" "x \<noteq> p"
      using assms(1) by (auto simp: set_take_conv_nth)
    then have jk: "j \<noteq> k" using k(2) by auto
    show "x \<in> set (take (cnt - 1) list')"
    proof (cases "j = cnt - 1")
      case True
      then have "k < cnt - 1" using jk k(1) by simp
      moreover from this have "list' ! k = x" using nth' [of k] True j(2) by simp
      ultimately show ?thesis using c1 by (auto simp: set_take_conv_nth)
    next
      case False
      then have "j < cnt - 1" using j(1) by simp
      moreover from this have "list' ! j = x" using nth' [of j] jk j(2) by simp
      ultimately show ?thesis using c1 by (auto simp: set_take_conv_nth)
    qed
  qed
  have d: "distinct (take (cnt - 1) list')"
  proof -
    have "\<And>a b. a < cnt - 1 \<Longrightarrow> b < cnt - 1 \<Longrightarrow> a \<noteq> b \<Longrightarrow> list' ! a \<noteq> list' ! b"
    proof -
      fix a b assume ab: "a < cnt - 1" "b < cnt - 1" "a \<noteq> b"
      show "list' ! a \<noteq> list' ! b"
        using ab nth' [of a] nth' [of b] inj [of a b] inj [of "cnt - 1" b] inj [of a "cnt - 1"]
        by (auto split: if_splits)
    qed
    then show ?thesis
      using c1 by (simp add: distinct_conv_nth)
  qed
  show ?thesis using r len s d by blast
qed

lemma same_table_simps [simp]:
  "same_table w w"
  "same_table w (clear_errno w') = same_table w w'"
  "same_table w (native c e w') = same_table w w'"
  "same_table w (w'\<lparr>errno := x\<rparr>) = same_table w w'"
  "same_table (clear_errno w) w' = same_table w w'"
  "same_table (native c e w) w' = same_table w w'"
  by (simp_all add: same_table_def clear_errno_def native_def)

lemma posix_strftime_frame:
  "posix_strftime argc format slots s r w = Inr (st, x, w') \<Longrightarrow> same_table w w'"
  by (auto simp: posix_strftime_def bnd_def Let_def split: if_splits sum.splits)

lemma posix_uname_frame:
  "posix_uname argc slots r w = Inr (st, x, w') \<Longrightarrow> same_table w w'"
  by (auto simp: posix_uname_def bnd_def Let_def split: if_splits sum.splits option.splits prod.splits)

lemma posix_readlink_frame:
  "posix_readlink argc path name r w = Inr (st, x, w') \<Longrightarrow> same_table w w'"
  by (auto simp: posix_readlink_def bnd_def Let_def split: if_splits sum.splits option.splits)

lemma u_posix_getpw_frame:
  "u_posix_getpw argc name uid slots db e w = Inr (st, x, w') \<Longrightarrow> same_table w w'"
  by (auto simp: u_posix_getpw_def bnd_def Let_def split: if_splits sum.splits option.splits prod.splits)

lemma u_posix_getgr_frame:
  "u_posix_getgr argc name gid slots db e w = Inr (st, x, w') \<Longrightarrow> same_table w w'"
  by (auto simp: u_posix_getgr_def bnd_def Let_def split: if_splits sum.splits option.splits prod.splits)

lemma grouplist_loop_frame:
  "grouplist_loop name groups e buf p l found w = Inr (st, x, w') \<Longrightarrow> same_table w w'"
proof (induction groups arbitrary: buf p l found w)
  case Nil
  then show ?case by (auto simp: Let_def)
next
  case (Cons b bs)
  then show ?case
    by (auto simp: Let_def split: sum.splits prod.splits bool.splits dest!: Cons.IH)
qed

lemma posix_getgrouplist_frame:
  "posix_getgrouplist argc name list groups e w = Inr (st, x, w') \<Longrightarrow> same_table w w'"
  by (auto simp: posix_getgrouplist_def bnd_def Let_def split: sum.splits dest!: grouplist_loop_frame)


lemma invoke_frame:
  assumes "invoke argc c w = Inr (st, c', w')"
    and "\<forall>path dir r. c \<noteq> Opendir path dir r"
    and "\<forall>dir name r. c \<noteq> Readdir dir name r"
    and "\<forall>dir r. c \<noteq> Closedir dir r"
  shows "same_table w w'"
proof (cases c)
  case (Strftime format slots s r)
  with assms(1) show ?thesis
    by (auto simp: ret2_def ret1_def split: sum.splits dest: posix_strftime_frame)
next
  case (Uname slots r)
  with assms(1) show ?thesis
    by (auto simp: ret2_def ret1_def split: sum.splits dest: posix_uname_frame)
next
  case (Readlink path name r)
  with assms(1) show ?thesis
    by (auto simp: ret2_def ret1_def split: sum.splits dest: posix_readlink_frame)
next
  case (Getpwnam name slots db e)
  with assms(1) show ?thesis
    by (auto simp: ret2_def ret1_def posix_getpwnam_def split: sum.splits dest: u_posix_getpw_frame)
next
  case (Getpwuid uid slots db e)
  with assms(1) show ?thesis
    by (auto simp: ret2_def ret1_def posix_getpwuid_def split: sum.splits dest: u_posix_getpw_frame)
next
  case (Getgrnam name slots db e)
  with assms(1) show ?thesis
    by (auto simp: ret2_def ret1_def posix_getgrnam_def split: sum.splits dest: u_posix_getgr_frame)
next
  case (Getgrgid gid slots db e)
  with assms(1) show ?thesis
    by (auto simp: ret2_def ret1_def posix_getgrgid_def split: sum.splits dest: u_posix_getgr_frame)
next
  case (Getgrouplist name list groups e)
  with assms(1) show ?thesis
    by (auto simp: ret2_def ret1_def split: sum.splits dest: posix_getgrouplist_frame)
qed (use assms in \<open>auto simp: ret0_def ret1_def Let_def
      posix_time_def posix_clock_gettime_def posix_clock_getres_def u_posix_clock_get_def
      posix_localtime_def posix_gmtime_def u_posix_time_def posix_mktime_def
      posix_times_def posix_sysinfo_def posix_setenv_def posix_unsetenv_def
      posix_openlog_def posix_syslog_def posix_umask_def posix_stat_def posix_lstat_def u_posix_stat_def
      posix_link_def posix_symlink_def u_posix_link_def posix_unlink_def
      posix_mkdir_def posix_rmdir_def posix_chmod_def posix_chown_def posix_lchown_def u_posix_chown_def
      split: if_splits option.splits\<close>)

lemma table_ok_same: "same_table w w' \<Longrightarrow> table_ok w' = table_ok w"
  by (simp add: same_table_def table_ok_def)

lemma handles_distinct_same: "same_table w w' \<Longrightarrow> handles_distinct w' = handles_distinct w"
  by (simp add: same_table_def handles_distinct_def)

lemma tracked_same: "same_table w w' \<Longrightarrow> tracked w' = tracked w"
  by (simp add: same_table_def tracked_def)

lemma in_list_loop_keep:
  "in_list_loop p list cnt False i = (f, list', cnt') \<Longrightarrow> list' = list \<and> cnt' = cnt"
proof (induction p list cnt "False" i rule: in_list_loop.induct)
  case (1 p list cnt i)
  from "1.prems" show ?case
    by (subst (asm) in_list_loop.simps) (auto split: if_splits dest: "1.hyps")
qed

lemma in_list_loop_shrinks:
  "in_list_loop p list cnt remove i = (f, list', cnt') \<Longrightarrow> length list' = length list \<and> cnt' \<le> cnt"
proof (induction p list cnt remove i rule: in_list_loop.induct)
  case (1 p list cnt remove i)
  from "1.prems" show ?case
    by (subst (asm) in_list_loop.simps) (auto split: if_splits dest: "1.IH")
qed

lemma is_dir_keep: "is_dir x False w = (f, w') \<Longrightarrow> w' = w"
  by (auto simp: is_dir_def in_list_def split: prod.splits dest!: in_list_loop_keep)

lemma is_dir_table_ok: "is_dir x y w = (f, w') \<Longrightarrow> table_ok w \<Longrightarrow> table_ok w'"
  by (auto simp: is_dir_def in_list_def table_ok_def split: prod.splits dest!: in_list_loop_shrinks)

lemma is_dir_errno_calls: "is_dir x y w = (f, w') \<Longrightarrow> errno w' = errno w \<and> calls w' = calls w"
  by (auto simp: is_dir_def split: prod.splits)

lemma is_dir_absent: "table_ok w \<Longrightarrow> x \<notin> tracked w \<Longrightarrow> is_dir x y w = (0, w)"
  by (simp add: is_dir_def table_ok_def tracked_def in_list_absent)

lemma is_dir_present_keep: "table_ok w \<Longrightarrow> x \<in> tracked w \<Longrightarrow> is_dir x False w = (1, w)"
  by (simp add: is_dir_def table_ok_def tracked_def in_list_present_keep)

lemma is_dir_present_remove:
  assumes "table_ok w" and "handles_distinct w" and "x \<in> tracked w"
  shows "\<exists>w'. is_dir x True w = (1, w') \<and> table_ok w' \<and> handles_distinct w' \<and>
           tracked w' = tracked w - {x} \<and> errno w' = errno w \<and> calls w' = calls w"
proof -
  have c: "dir_count w \<le> length (dir_list w)"
    using assms(1) by (simp add: table_ok_def)
  obtain list' where l: "in_list x (dir_list w) (dir_count w) True = (1, list', dir_count w - 1)"
    "length list' = length (dir_list w)"
    "set (take (dir_count w - 1) list') = set (take (dir_count w) (dir_list w)) - {x}"
    "distinct (take (dir_count w - 1) list')"
    using in_list_present_remove [OF c] assms(2,3)
    unfolding tracked_def handles_distinct_def by blast
  have "dir_count w - 1 \<le> dir_limit"
    using assms(1) by (auto simp: table_ok_def)
  then show ?thesis
    using l assms(1) by (simp add: is_dir_def table_ok_def handles_distinct_def tracked_def)
qed

lemma push_dir_props:
  assumes "table_ok w" and "dir_count w < dir_limit"
  shows "table_ok (push_dir h w)"
    and "tracked (push_dir h w) = insert h (tracked w)"
    and "handles_distinct w \<Longrightarrow> h \<notin> tracked w \<Longrightarrow> handles_distinct (push_dir h w)"
proof -
  have lt: "dir_count w < length (dir_list w)"
    using assms by (simp add: table_ok_def)
  have t: "take (Suc (dir_count w)) ((dir_list w)[dir_count w := h]) = take (dir_count w) (dir_list w) @ [h]"
    using lt by (simp add: take_Suc_conv_app_nth)
  show "table_ok (push_dir h w)"
    using assms by (simp add: push_dir_def table_ok_def)
  show "tracked (push_dir h w) = insert h (tracked w)"
    using t by (simp add: push_dir_def tracked_def)
  show "handles_distinct w \<Longrightarrow> h \<notin> tracked w \<Longrightarrow> handles_distinct (push_dir h w)"
    using t by (simp add: push_dir_def tracked_def handles_distinct_def)
qed

lemma push_dir_errno_calls [simp]:
  "errno (push_dir h w) = errno w" "calls (push_dir h w) = calls w"
  by (simp_all add: push_dir_def)

lemma world_simps [simp]:
  "dir_list (clear_errno w) = dir_list w" "dir_count (clear_errno w) = dir_count w"
  "dir_list (native c e w) = dir_list w" "dir_count (native c e w) = dir_count w"
  "calls (clear_errno w) = calls w" "calls (native c e w) = calls w @ [c]"
  "errno (clear_errno w) = 0"
  by (simp_all add: clear_errno_def native_def)

lemma table_ok_simps [simp]:
  "table_ok (clear_errno w) = table_ok w" "table_ok (native c e w) = table_ok w"
  "handles_distinct (clear_errno w) = handles_distinct w"
  "handles_distinct (native c e w) = handles_distinct w"
  "tracked (clear_errno w) = tracked w" "tracked (native c e w) = tracked w"
  by (simp_all add: table_ok_def handles_distinct_def tracked_def)

lemma posix_opendir_table_ok:
  "posix_opendir argc path dir r w = (st, d, w') \<Longrightarrow> table_ok w \<Longrightarrow> table_ok w'"
  by (auto simp: posix_opendir_def Let_def push_dir_props(1) split: if_splits)

lemma posix_opendir_distinct:
  "posix_opendir argc path dir r w = (st, d, w') \<Longrightarrow> table_ok w \<Longrightarrow> handles_distinct w \<Longrightarrow>
   fst r \<notin> tracked w \<Longrightarrow> handles_distinct w'"
  by (auto simp: posix_opendir_def Let_def push_dir_props(3) split: if_splits)

lemma posix_readdir_frame:
  "posix_readdir argc dir name r w = Inr (st, x, w') \<Longrightarrow> same_table w w'"
  by (auto simp: posix_readdir_def bnd_def Let_def
      split: if_splits sum.splits option.splits prod.splits dest!: is_dir_keep)

lemma posix_closedir_table_ok:
  "posix_closedir argc dir r w = (st, w') \<Longrightarrow> table_ok w \<Longrightarrow> table_ok w'"
  by (auto simp: posix_closedir_def Let_def split: if_splits prod.splits dest: is_dir_table_ok)

lemma posix_closedir_distinct:
  assumes "posix_closedir argc dir r w = (st, w')" and "table_ok w" and "handles_distinct w"
  shows "handles_distinct w'"
proof (cases "argc = 1 \<and> dir \<in> tracked w")
  case True
  obtain w0 where w0: "is_dir dir True w = (1, w0)" "handles_distinct w0"
    using is_dir_present_remove [OF assms(2,3)] True by blast
  with assms(1) True show ?thesis
    by (auto simp: posix_closedir_def Let_def)
next
  case False
  then have "w' = w"
    using assms(1,2) by (auto simp: posix_closedir_def is_dir_absent split: if_splits)
  with assms(3) show ?thesis by simp
qed

lemma invoke_table_ok:
  assumes "invoke argc c w = Inr (st, c', w')" and "table_ok w"
  shows "table_ok w'"
proof -
  consider (o) path dir r where "c = Opendir path dir r"
    | (r) dir name r where "c = Readdir dir name r"
    | (c) dir r where "c = Closedir dir r"
    | (other) "\<forall>path dir r. c \<noteq> Opendir path dir r" "\<forall>dir name r. c \<noteq> Readdir dir name r"
        "\<forall>dir r. c \<noteq> Closedir dir r"
    by blast
  then show ?thesis
  proof cases
    case o
    obtain st0 d w0 where e: "posix_opendir argc path dir r w = (st0, d, w0)"
      by (cases "posix_opendir argc path dir r w") auto
    with assms(1) o have "w' = w0"
      by (simp add: ret1_def)
    with e assms(2) show ?thesis
      by (auto dest: posix_opendir_table_ok)
  next
    case r
    with assms show ?thesis
      by (auto simp: ret2_def ret1_def table_ok_same split: sum.splits dest!: posix_readdir_frame)
  next
    case c
    obtain st0 w0 where e: "posix_closedir argc dir r w = (st0, w0)"
      by (cases "posix_closedir argc dir r w") auto
    with assms(1) c have "w' = w0"
      by (simp add: ret0_def)
    with e assms(2) show ?thesis
      by (auto dest: posix_closedir_table_ok)
  next
    case other
    with assms show ?thesis
      using invoke_frame [OF assms(1)] by (simp add: table_ok_same)
  qed
qed

lemma invoke_distinct:
  assumes "invoke argc c w = Inr (st, c', w')" and "table_ok w" and "handles_distinct w"
    and "opens_fresh c w"
  shows "handles_distinct w'"
proof -
  consider (o) path dir r where "c = Opendir path dir r"
    | (r) dir name r where "c = Readdir dir name r"
    | (c) dir r where "c = Closedir dir r"
    | (other) "\<forall>path dir r. c \<noteq> Opendir path dir r" "\<forall>dir name r. c \<noteq> Readdir dir name r"
        "\<forall>dir r. c \<noteq> Closedir dir r"
    by blast
  then show ?thesis
  proof cases
    case o
    obtain st0 d w0 where e: "posix_opendir argc path dir r w = (st0, d, w0)"
      by (cases "posix_opendir argc path dir r w") auto
    with assms(1) o have "w' = w0"
      by (simp add: ret1_def)
    moreover have "fst r \<notin> tracked w"
      using assms(4) o by (simp add: opens_fresh_def)
    ultimately show ?thesis
      using e assms(2,3) by (auto dest: posix_opendir_distinct)
  next
    case r
    with assms show ?thesis
      by (auto simp: ret2_def ret1_def handles_distinct_same split: sum.splits dest!: posix_readdir_frame)
  next
    case c
    obtain st0 w0 where e: "posix_closedir argc dir r w = (st0, w0)"
      by (cases "posix_closedir argc dir r w") auto
    with assms(1) c have "w' = w0"
      by (simp add: ret0_def)
    with e assms(2,3) show ?thesis
      by (auto dest: posix_closedir_distinct)
  next
    case other
    with assms show ?thesis
      using invoke_frame [OF assms(1)] by (simp add: handles_distinct_same)
  qed
qed

lemma run_table_ok: "run cs w0 = Inr w \<Longrightarrow> table_ok w0 \<Longrightarrow> table_ok w"
proof (induction cs arbitrary: w0)
  case Nil
  then show ?case by simp
next
  case (Cons a cs)
  obtain argc c where a: "a = (argc, c)" by (cases a)
  from Cons.prems(1) obtain st c' w1 where i: "invoke argc c w0 = Inr (st, c', w1)" and r: "run cs w1 = Inr w"
    by (auto simp: a split: sum.splits)
  from i Cons.prems(2) have "table_ok w1" by (rule invoke_table_ok)
  with r show ?case by (rule Cons.IH)
qed

lemma run_distinct:
  "run cs w0 = Inr w \<Longrightarrow> fresh_handles cs w0 \<Longrightarrow> table_ok w0 \<Longrightarrow> handles_distinct w0 \<Longrightarrow>
   handles_distinct w"
proof (induction cs arbitrary: w0)
  case Nil
  then show ?case by simp
next
  case (Cons a cs)
  obtain argc c where a: "a = (argc, c)" by (cases a)
  from Cons.prems(1) obtain st c' w1 where i: "invoke argc c w0 = Inr (st, c', w1)" and r: "run cs w1 = Inr w"
    by (auto simp: a split: sum.splits)
  from Cons.prems(2) i have f: "opens_fresh c w0" "fresh_handles cs w1"
    by (simp_all add: a)
  have "table_ok w1" using i Cons.prems(3) by (rule invoke_table_ok)
  moreover have "handles_distinct w1" using i Cons.prems(3,4) f(1) by (rule invoke_distinct)
  ultimately show ?case using r f(2) by (intro Cons.IH)
qed

lemma init_world_ok: "table_ok init_world" "handles_distinct init_world" "tracked init_world = {}"
  by (simp_all add: init_world_def table_ok_def handles_distinct_def tracked_def)

lemma posix_closedir_absent:
  "table_ok w \<Longrightarrow> h \<notin> tracked w \<Longrightarrow> posix_closedir 1 h rc w = (EINVAL, w)"
  by (simp add: posix_closedir_def is_dir_absent)

lemma posix_readdir_absent:
  "table_ok w \<Longrightarrow> h \<notin> tracked w \<Longrightarrow> name \<noteq> [] \<Longrightarrow>
   posix_readdir 2 h name r w = Inr (EINVAL, name[0 := NUL], w)"
  by (simp add: posix_readdir_def is_dir_absent bnd_def poke_def)

lemma posix_closedir_present:
  assumes "table_ok w" and "handles_distinct w" and "h \<in> tracked w"
  shows "\<exists>w'. posix_closedir 1 h rc w = (errno w', w') \<and> table_ok w' \<and> tracked w' = tracked w - {h} \<and>
           calls w' = calls w @ [N_closedir h]"
proof -
  obtain w0 where w0: "is_dir h True w = (1, w0)" "table_ok w0" "tracked w0 = tracked w - {h}"
    "calls w0 = calls w"
    using is_dir_present_remove [OF assms] by blast
  then show ?thesis
    by (simp add: posix_closedir_def Let_def)
qed

text \<open>
  Claim C7. In every state \<open>w\<close> reached from the initial state by a sequence of calls of
  exposed operations (with any arguments and argument counts, the native
  \<^verbatim>\<open>opendir\<close> answering with handles that are not open already):
  \<^item> an \<^verbatim>\<open>opendir\<close> that succeeds (below the ceiling) adds its handle to the tracked set,
    and one that fails natively leaves the set alone;
  \<^item> a \<^verbatim>\<open>readdir\<close> never changes the set;
  \<^item> a \<^verbatim>\<open>closedir\<close> of a tracked handle removes it, after which a second
    \<^verbatim>\<open>closedir\<close> of the same handle returns \<^verbatim>\<open>EINVAL\<close> and changes nothing;
  \<^item> a \<^verbatim>\<open>closedir\<close> or \<^verbatim>\<open>readdir\<close> of a handle that is not tracked returns
    \<^verbatim>\<open>EINVAL\<close> and leaves the state, and so the trace of native calls, as it was.
\<close>

theorem dir_handle_state_machine:
  assumes "run cs init_world = Inr w" and "fresh_handles cs init_world"
  shows "(h \<noteq> 0 \<and> dir_count w < dir_limit \<longrightarrow>
            tracked (snd (snd (posix_opendir 2 path dir (h, e) w))) = insert h (tracked w))
       \<and> tracked (snd (snd (posix_opendir 2 path dir (0, e) w))) = tracked w
       \<and> (case posix_readdir 2 h name r w of
             Inl f \<Rightarrow> True
           | Inr (st, name', w') \<Rightarrow> tracked w' = tracked w)
       \<and> (h \<in> tracked w \<longrightarrow>
            tracked (snd (posix_closedir 1 h rc w)) = tracked w - {h} \<and>
            calls (snd (posix_closedir 1 h rc w)) = calls w @ [N_closedir h] \<and>
            posix_closedir 1 h rcb (snd (posix_closedir 1 h rc w)) =
              (EINVAL, snd (posix_closedir 1 h rc w)))
       \<and> (h \<notin> tracked w \<longrightarrow>
            posix_closedir 1 h rc w = (EINVAL, w) \<and>
            (name \<noteq> [] \<longrightarrow> posix_readdir 2 h name r w = Inr (EINVAL, name[0 := NUL], w)))"
proof -
  have ok: "table_ok w"
    using assms(1) init_world_ok(1) by (rule run_table_ok)
  have di: "handles_distinct w"
    using assms init_world_ok(1,2) by (rule run_distinct)
  have a: "h \<noteq> 0 \<and> dir_count w < dir_limit \<longrightarrow>
            tracked (snd (snd (posix_opendir 2 path dir (h, e) w))) = insert h (tracked w)"
    using ok by (simp add: posix_opendir_def Let_def push_dir_props(2))
  have b: "tracked (snd (snd (posix_opendir 2 path dir (0, e) w))) = tracked w"
    by (simp add: posix_opendir_def Let_def)
  have c: "case posix_readdir 2 h name r w of
             Inl f \<Rightarrow> True
           | Inr (st, name', w') \<Rightarrow> tracked w' = tracked w"
    by (auto split: sum.splits dest!: posix_readdir_frame simp: tracked_same)
  have d: "h \<in> tracked w \<longrightarrow>
            tracked (snd (posix_closedir 1 h rc w)) = tracked w - {h} \<and>
            calls (snd (posix_closedir 1 h rc w)) = calls w @ [N_closedir h] \<and>
            posix_closedir 1 h rcb (snd (posix_closedir 1 h rc w)) =
              (EINVAL, snd (posix_closedir 1 h rc w))"
  proof
    assume h: "h \<in> tracked w"
    obtain w' where w': "posix_closedir 1 h rc w = (errno w', w')" "table_ok w'"
      "tracked w' = tracked w - {h}" "calls w' = calls w @ [N_closedir h]"
      using posix_closedir_present [OF ok di h] by blast
    then have "h \<notin> tracked w'" by simp
    with w'(2) have "posix_closedir 1 h rcb w' = (EINVAL, w')"
      by (rule posix_closedir_absent)
    with w' show "tracked (snd (posix_closedir 1 h rc w)) = tracked w - {h} \<and>
            calls (snd (posix_closedir 1 h rc w)) = calls w @ [N_closedir h] \<and>
            posix_closedir 1 h rcb (snd (posix_closedir 1 h rc w)) =
              (EINVAL, snd (posix_closedir 1 h rc w))"
      by simp
  qed
  have f: "h \<notin> tracked w \<longrightarrow>
            posix_closedir 1 h rc w = (EINVAL, w) \<and>
            (name \<noteq> [] \<longrightarrow> posix_readdir 2 h name r w = Inr (EINVAL, name[0 := NUL], w))"
    using ok by (simp add: posix_closedir_absent posix_readdir_absent)
  from a b c d f show ?thesis by blast
qed

theorem dir_handle_state_machine_witness:
  "fresh_handles [(2, Opendir ''/etc'' 0 (5, None))] init_world \<and>
   (case run [(2, Opendir ''/etc'' 0 (5, None))] init_world of
      Inl f \<Rightarrow> False
    | Inr w \<Rightarrow>
        tracked w = {5} \<and>
        tracked (snd (snd (posix_opendir 2 ''/tmp'' 0 (6, None) w))) = {5, 6} \<and>
        tracked (snd (posix_closedir 1 5 (0, None) w)) = {} \<and>
        calls (snd (posix_closedir 1 5 (0, None) w)) = [N_opendir ''/etc'', N_closedir 5] \<and>
        posix_closedir 1 5 (0, None) (snd (posix_closedir 1 5 (0, None) w)) =
          (EINVAL, snd (posix_closedir 1 5 (0, None) w)) \<and>
        posix_closedir 1 7 (0, None) w = (EINVAL, w) \<and>
        posix_readdir 2 7 ''xxxx'' (Some ''passwd'', None) w = Inr (EINVAL, NUL # ''xxx'', w))"
proof -
  define w1 where "w1 = push_dir 5 (native (N_opendir ''/etc'') None (clear_errno init_world))"
  have r: "run [(2, Opendir ''/etc'' 0 (5, None))] init_world = Inr w1"
    by (simp add: ret1_def posix_opendir_def w1_def init_world_def dir_limit_def Let_def)
  have f: "fresh_handles [(2, Opendir ''/etc'' 0 (5, None))] init_world"
    by (simp add: opens_fresh_def init_world_ok(3) ret1_def)
  have "dir_count init_world < dir_limit"
    by (simp add: init_world_def dir_limit_def)
  then have t: "tracked w1 = {5}"
    unfolding w1_def
    by (subst push_dir_props(2)) (simp_all add: init_world_ok)
  have c: "dir_count w1 < dir_limit" "calls w1 = [N_opendir ''/etc'']"
    by (simp_all add: w1_def push_dir_def init_world_def dir_limit_def)
  have h5: "(5::nat) \<in> tracked w1" "(7::nat) \<notin> tracked w1"
    by (simp_all add: t)
  note m0 = dir_handle_state_machine [OF r f, where h = 6 and path = "''/tmp''" and dir = 0 and e = None]
  note m1 = dir_handle_state_machine [OF r f, where h = 5 and rc = "(0, None)" and rcb = "(0, None)"]
  note m2 = dir_handle_state_machine [OF r f, where h = 7 and name = "''xxxx''"
      and r = "(Some ''passwd'', None)" and rc = "(0, None)"]
  have "tracked w1 = {5} \<and>
        tracked (snd (snd (posix_opendir 2 ''/tmp'' 0 (6, None) w1))) = {5, 6} \<and>
        tracked (snd (posix_closedir 1 5 (0, None) w1)) = {} \<and>
        calls (snd (posix_closedir 1 5 (0, None) w1)) = [N_opendir ''/etc'', N_closedir 5] \<and>
        posix_closedir 1 5 (0, None) (snd (posix_closedir 1 5 (0, None) w1)) =
          (EINVAL, snd (posix_closedir 1 5 (0, None) w1)) \<and>
        posix_closedir 1 7 (0, None) w1 = (EINVAL, w1) \<and>
        posix_readdir 2 7 ''xxxx'' (Some ''passwd'', None) w1 = Inr (EINVAL, NUL # ''xxx'', w1)"
    using m0 m1 m2 t c h5 by (simp add: insert_commute)
  then have "case run [(2, Opendir ''/etc'' 0 (5, None))] init_world of
      Inl f \<Rightarrow> False
    | Inr w \<Rightarrow>
        tracked w = {5} \<and>
        tracked (snd (snd (posix_opendir 2 ''/tmp'' 0 (6, None) w))) = {5, 6} \<and>
        tracked (snd (posix_closedir 1 5 (0, None) w)) = {} \<and>
        calls (snd (posix_closedir 1 5 (0, None) w)) = [N_opendir ''/etc'', N_closedir 5] \<and>
        posix_closedir 1 5 (0, None) (snd (posix_closedir 1 5 (0, None) w)) =
          (EINVAL, snd (posix_closedir 1 5 (0, None) w)) \<and>
        posix_closedir 1 7 (0, None) w = (EINVAL, w) \<and>
        posix_readdir 2 7 ''xxxx'' (Some ''passwd'', None) w = Inr (EINVAL, NUL # ''xxx'', w)"
    unfolding r by (simp only: sum.case)
  with f show ?thesis
    by (rule conjI)
qed

text \<open>
  Claim C8. The ceiling is 256. In any state whose count has reached the ceiling,
  \<^verbatim>\<open>posix_opendir\<close> returns \<^verbatim>\<open>EMFILE\<close> and leaves the state, and so the trace of
  native calls, as it was; and in every state reached from the initial state by a sequence
  of calls the count and the number of tracked handles are at most the ceiling.
\<close>

theorem dir_limit_enforced:
  "dir_limit = 256
   \<and> (dir_limit \<le> dir_count w \<longrightarrow> posix_opendir 2 path dir r w = (EMFILE, dir, w))
   \<and> (run cs init_world = Inr w' \<longrightarrow> dir_count w' \<le> dir_limit \<and> card (tracked w') \<le> dir_limit)"
proof -
  have a: "dir_limit \<le> dir_count w \<longrightarrow> posix_opendir 2 path dir r w = (EMFILE, dir, w)"
    by (simp add: posix_opendir_def)
  have b: "run cs init_world = Inr w' \<longrightarrow> dir_count w' \<le> dir_limit \<and> card (tracked w') \<le> dir_limit"
  proof
    assume "run cs init_world = Inr w'"
    then have ok: "table_ok w'"
      using init_world_ok(1) by (rule run_table_ok)
    have "card (tracked w') \<le> length (take (dir_count w') (dir_list w'))"
      unfolding tracked_def by (rule card_length)
    also have "\<dots> \<le> dir_count w'"
      by simp
    finally show "dir_count w' \<le> dir_limit \<and> card (tracked w') \<le> dir_limit"
      using ok by (simp add: table_ok_def)
  qed
  from a b show ?thesis by (simp add: dir_limit_def)
qed

lemma run_append:
  "run (xs @ ys) w = (case run xs w of Inl f \<Rightarrow> Inl f | Inr w' \<Rightarrow> run ys w')"
  by (induction xs arbitrary: w) (auto split: sum.splits)

lemma run_opens:
  "n \<le> dir_limit \<Longrightarrow>
   \<exists>w. run (map (\<lambda>i. (2, Opendir ''/d'' 0 (Suc i, None))) [0..<n]) init_world = Inr w \<and> dir_count w = n"
proof (induction n)
  case 0
  show ?case by (simp add: init_world_def)
next
  case (Suc n)
  then obtain w where w: "run (map (\<lambda>i. (2, Opendir ''/d'' 0 (Suc i, None))) [0..<n]) init_world = Inr w"
    "dir_count w = n"
    by auto
  have "n < dir_limit" using Suc.prems by simp
  then show ?case
    using w by (simp add: run_append ret1_def posix_opendir_def Let_def push_dir_def)
qed

theorem dir_limit_enforced_witness:
  "(case run (map (\<lambda>i. (2, Opendir ''/d'' 0 (Suc i, None))) [0..<256]) init_world of
      Inl f \<Rightarrow> False
    | Inr w \<Rightarrow>
        dir_count w = 256 \<and> card (tracked w) \<le> 256 \<and>
        posix_opendir 2 ''/x'' 0 (999, None) w = (EMFILE, 0, w))"
proof -
  obtain w where w: "run (map (\<lambda>i. (2, Opendir ''/d'' 0 (Suc i, None))) [0..<256]) init_world = Inr w"
    "dir_count w = 256"
    using run_opens [of 256] by (auto simp: dir_limit_def)
  from dir_limit_enforced [of w "''/x''" 0 "(999, None)" "map (\<lambda>i. (2, Opendir ''/d'' 0 (Suc i, None))) [0..<256]" w] w
  show ?thesis by simp
qed

end
